theory Spec2Isabelle
  imports Complex_Main
begin

unbundle bit_operations_syntax

section \<open>JavaScript values reached by the ledger code\<close>

text \<open>
  The ledger (\<^verbatim>\<open>PermissionedBlockchain\<close>) and its rule contract
  (\<^verbatim>\<open>AyurvedicHerbContract\<close>) are JavaScript classes. The embedding keeps
  the parts of the JavaScript semantics that decide a branch of the code:
  \<^item> a missing property reads as \<^verbatim>\<open>undefined\<close>: an optional field is an
    \<open>option\<close>, \<open>None\<close> for \<^verbatim>\<open>undefined\<close>;
  \<^item> a relational comparison with \<^verbatim>\<open>undefined\<close> is false, and arithmetic
    with it gives \<^verbatim>\<open>NaN\<close>, which compares false as well;
  \<^item> \<^verbatim>\<open>x && ...\<close> and \<^verbatim>\<open>x || d\<close> test truthiness, so the number
    \<open>0\<close> and the empty string behave like a missing value there;
  \<^item> a property read \<^verbatim>\<open>table[key]\<close> on an object literal finds the
    literal's own keys first and then the members every object inherits from
    \<^verbatim>\<open>Object.prototype\<close>.
  Numbers are IEEE doubles in the source. A number of the payload or of a rule
  table is held as the real it is written as. Where the source only compares
  numbers they are compared as reals, which agrees with the source on every
  comparison of values that are exact as doubles. Where the source adds numbers
  (the sum of the daily limit) the model adds as the source does: every operand
  is the double nearest to the number written, and every sum is rounded to the
  nearest double.
\<close>

datatype 'a lookup = Own 'a | Inherited | Undefined

definition objectPrototypeKeys :: "string list" where
  "objectPrototypeKeys =
     [''constructor'', ''__defineGetter__'', ''__defineSetter__'', ''hasOwnProperty'',
      ''__lookupGetter__'', ''__lookupSetter__'', ''isPrototypeOf'',
      ''propertyIsEnumerable'', ''toString'', ''valueOf'', ''__proto__'',
      ''toLocaleString'']"

definition objGet :: "(string \<times> 'a) list \<Rightarrow> string \<Rightarrow> 'a lookup" where
  "objGet obj k =
     (case map_of obj k of
        Some v \<Rightarrow> Own v
      | None \<Rightarrow> if k \<in> set objectPrototypeKeys then Inherited else Undefined)"

definition propKey :: "string option \<Rightarrow> string" where
  "propKey k = (case k of None \<Rightarrow> ''undefined'' | Some s \<Rightarrow> s)"

definition jsGt :: "real option \<Rightarrow> real option \<Rightarrow> bool" where
  "jsGt a b = (case a of None \<Rightarrow> False
               | Some x \<Rightarrow> (case b of None \<Rightarrow> False | Some y \<Rightarrow> x > y))"

definition jsLt :: "real option \<Rightarrow> real option \<Rightarrow> bool" where
  "jsLt a b = (case a of None \<Rightarrow> False
               | Some x \<Rightarrow> (case b of None \<Rightarrow> False | Some y \<Rightarrow> x < y))"

definition jsGe :: "real option \<Rightarrow> real option \<Rightarrow> bool" where
  "jsGe a b = (case a of None \<Rightarrow> False
               | Some x \<Rightarrow> (case b of None \<Rightarrow> False | Some y \<Rightarrow> x \<ge> y))"

definition jsLe :: "real option \<Rightarrow> real option \<Rightarrow> bool" where
  "jsLe a b = (case a of None \<Rightarrow> False
               | Some x \<Rightarrow> (case b of None \<Rightarrow> False | Some y \<Rightarrow> x \<le> y))"

definition truthyNum :: "real option \<Rightarrow> bool" where
  "truthyNum a = (case a of None \<Rightarrow> False | Some x \<Rightarrow> x \<noteq> 0)"

subsection \<open>Addition of doubles\<close>

text \<open>
  The values of a JavaScript number: a finite double (held as the real it
  denotes), the two infinities, and \<^verbatim>\<open>NaN\<close>.
\<close>

datatype jsnum = Fin real | PosInf | NegInf | NaN

fun bitsFrom :: "nat \<Rightarrow> nat \<Rightarrow> nat" where
  "bitsFrom k n = (if n = 0 then k else bitsFrom (k + 1) (n div 2))"

declare bitsFrom.simps [simp del]

definition bitLength :: "nat \<Rightarrow> nat" where
  "bitLength n = bitsFrom 0 n"

text \<open>For \<open>a > 0\<close>, the integer \<open>e\<close> with \<open>2 ^ e \<le> a < 2 ^ (e + 1)\<close>.\<close>

definition exponentOf :: "real \<Rightarrow> int" where
  "exponentOf a =
     (if 1 \<le> a then int (bitLength (nat \<lfloor>a\<rfloor>)) - 1
      else - int (bitLength (nat (\<lceil>1 / a\<rceil> - 1))))"

definition pow2 :: "int \<Rightarrow> real" where
  "pow2 k = (if 0 \<le> k then 2 ^ nat k else 1 / 2 ^ nat (- k))"

definition roundHalfEven :: "real \<Rightarrow> int" where
  "roundHalfEven s =
     (if s - of_int \<lfloor>s\<rfloor> < 1 / 2 then \<lfloor>s\<rfloor>
      else if 1 / 2 < s - of_int \<lfloor>s\<rfloor> then \<lfloor>s\<rfloor> + 1
      else if even \<lfloor>s\<rfloor> then \<lfloor>s\<rfloor> else \<lfloor>s\<rfloor> + 1)"

text \<open>
  The spacing of the doubles around \<open>a > 0\<close>: 53 significant bits, and the
  spacing of the subnormal numbers below \<open>2 ^ - 1022\<close>.
\<close>

definition quantum :: "real \<Rightarrow> real" where
  "quantum a = pow2 (max (exponentOf a) (- 1022) - 52)"

definition roundTo :: "real \<Rightarrow> real \<Rightarrow> real" where
  "roundTo q a = of_int (roundHalfEven (a / q)) * q"

definition ofMagnitude :: "bool \<Rightarrow> real \<Rightarrow> jsnum" where
  "ofMagnitude positive r =
     (if pow2 1024 \<le> r then (if positive then PosInf else NegInf)
      else Fin (if positive then r else - r))"

text \<open>
  The double nearest to a real, ties to the even significand; a magnitude that
  rounds to \<open>2 ^ 1024\<close> or more is infinite.
\<close>

definition toDouble :: "real \<Rightarrow> jsnum" where
  "toDouble x =
     (if x = 0 then Fin 0 else ofMagnitude (0 < x) (roundTo (quantum \<bar>x\<bar>) \<bar>x\<bar>))"

text \<open>\<^verbatim>\<open>x + y\<close> on numbers: the exact sum of two finite doubles, rounded.\<close>

fun numAdd :: "jsnum \<Rightarrow> jsnum \<Rightarrow> jsnum" where
  "numAdd (Fin x) (Fin y) = toDouble (x + y)"
| "numAdd NaN _ = NaN"
| "numAdd _ NaN = NaN"
| "numAdd PosInf NegInf = NaN"
| "numAdd NegInf PosInf = NaN"
| "numAdd PosInf _ = PosInf"
| "numAdd _ PosInf = PosInf"
| "numAdd NegInf _ = NegInf"
| "numAdd _ NegInf = NegInf"

text \<open>\<^verbatim>\<open>x <= y\<close> on numbers.\<close>

fun numLe :: "jsnum \<Rightarrow> jsnum \<Rightarrow> bool" where
  "numLe NaN _ = False"
| "numLe _ NaN = False"
| "numLe NegInf _ = True"
| "numLe _ PosInf = True"
| "numLe (Fin x) (Fin y) = (x \<le> y)"
| "numLe _ _ = False"

text \<open>A property used as a number; \<^verbatim>\<open>undefined\<close> is \<^verbatim>\<open>NaN\<close> in arithmetic.\<close>

definition toNum :: "real option \<Rightarrow> jsnum" where
  "toNum v = (case v of None \<Rightarrow> NaN | Some x \<Rightarrow> toDouble x)"

text \<open>Number to string, for the non-negative integers the block digest concatenates.\<close>

definition digit :: "nat \<Rightarrow> char" where
  "digit n = (''0123456789'' ! n)"

fun showNat :: "nat \<Rightarrow> string" where
  "showNat n = (if n < 10 then [digit n] else showNat (n div 10) @ [digit (n mod 10)])"

declare showNat.simps [simp del]

section \<open>Data model\<close>

record gps_point =
  latitude :: "real option"
  longitude :: "real option"

record quality_metrics =
  moisture :: "real option"
  withanolide :: "real option"
  pesticide :: "real option"
  heavyMetals :: "real option"

record conditions_rec =
  temperature :: "real option"
  meshSize :: "real option"

text \<open>
  The payload of a transaction is a free-form object. The record holds the
  properties the code reads or writes; every one may be absent.
\<close>

record txdata =
  farmerId :: "string option"
  species :: "string option"
  gps :: "gps_point option"
  quantity :: "real option"
  qualityMetrics :: "quality_metrics option"
  batchId :: "string option"
  processingType :: "string option"
  conditions :: "conditions_rec option"
  labId :: "string option"
  message :: "string option"
  dataNodeId :: "string option"
  dataNodeType :: "string option"

record contract_result =
  valid :: bool
  contractHash :: string
  validationRules :: "(string \<times> string) list"

record transaction =
  tid :: string
  ttype :: string
  tdata :: txdata
  tnodeId :: string
  ttimestamp :: nat
  signature :: string
  contractValidation :: "contract_result option"

record block =
  index :: nat
  timestamp :: nat
  transactions :: "transaction list"
  previousHash :: "string option"
  minerId :: "string option"
  nonce :: nat
  hash :: "string option"

record node =
  nid :: string
  ntype :: string
  publicKey :: string
  metadata :: "(string \<times> string) list"
  registeredAt :: nat
  active :: bool
  permissions :: "string list"

subsection \<open>The rule tables of the contract\<close>

record geo_bounds =
  latLo :: real
  latHi :: real
  lngLo :: real
  lngHi :: real

record geo_rule =
  region :: string
  bounds :: geo_bounds

record thresholds =
  moistureMax :: "real option"
  withanolideMin :: "real option"
  pesticideMax :: "real option"
  heavyMetalsMax :: "real option"

record rules =
  geoFencing :: "(string \<times> geo_rule list) list"
  seasonalRestrictions :: "(string \<times> nat list) list"
  qualityThresholds :: "(string \<times> thresholds) list"
  dailyLimits :: "(string \<times> real) list"

definition defaultRules :: rules where
  "defaultRules =
     \<lparr>geoFencing =
        [(''ashwagandha'',
          [\<lparr>region = ''Rajasthan'',
             bounds = \<lparr>latLo = 24, latHi = 30, lngLo = 69, lngHi = 78\<rparr>\<rparr>,
           \<lparr>region = ''Madhya Pradesh'',
             bounds = \<lparr>latLo = 21, latHi = 26, lngLo = 74, lngHi = 82\<rparr>\<rparr>,
           \<lparr>region = ''Gujarat'',
             bounds = \<lparr>latLo = 20, latHi = 25, lngLo = 68, lngHi = 75\<rparr>\<rparr>])],
      seasonalRestrictions =
        [(''ashwagandha'', [10, 11, 12, 1, 2]),
         (''tulsi'', [3, 4, 5, 6, 7, 8]),
         (''neem'', [1, 2, 3, 4, 5, 6, 7, 8, 9, 10, 11, 12])],
      qualityThresholds =
        [(''ashwagandha'',
          \<lparr>moistureMax = Some 12, withanolideMin = Some (3 / 10),
           pesticideMax = Some (1 / 100), heavyMetalsMax = Some 10\<rparr>)],
      dailyLimits = [(''ashwagandha'', 50), (''tulsi'', 25), (''neem'', 100)]\<rparr>"

subsection \<open>The runtime the code calls into\<close>

text \<open>
  The digest (\<^verbatim>\<open>crypto.createHash('sha256')\<close>), \<^verbatim>\<open>JSON.stringify\<close> on the
  three shapes the code serialises, and the local calendar of \<^verbatim>\<open>Date\<close> are
  library code. They are parameters of the model: every theorem below that
  mentions \<open>e\<close> holds for every digest, serialiser and time zone.
  \<^verbatim>\<open>Date.now()\<close> and \<^verbatim>\<open>uuidv4()\<close> are inputs of the operation that calls
  them.
\<close>

record env =
  sha256hex :: "string \<Rightarrow> string"
  jsonTransactions :: "transaction list \<Rightarrow> string"
  jsonSignData :: "string \<Rightarrow> string \<Rightarrow> txdata \<Rightarrow> nat \<Rightarrow> string"
  jsonContractData :: "string \<Rightarrow> nat \<Rightarrow> string \<Rightarrow> string \<Rightarrow> string"
  toDateString :: "nat \<Rightarrow> string"
  getMonth :: "nat \<Rightarrow> nat"

section \<open>The rule contract (SmartContract.js)\<close>

datatype reason =
    GeoFenceViolation
  | SeasonViolation
  | DailyLimitExceeded
  | QualityFailed string
  | BatchNotFound
  | DryingTemperatureTooHigh
  | MeshSizeTooCoarse
  | LabNotCertified
  | JsTypeError

definition inBounds :: "gps_point \<Rightarrow> geo_rule \<Rightarrow> bool" where
  "inBounds g rule =
     (jsGe (latitude g) (Some (latLo (bounds rule))) \<and>
      jsLe (latitude g) (Some (latHi (bounds rule))) \<and>
      jsGe (longitude g) (Some (lngLo (bounds rule))) \<and>
      jsLe (longitude g) (Some (lngHi (bounds rule))))"

text \<open>
  \<^verbatim>\<open>validateGeoFencing\<close>. \<^verbatim>\<open>speciesRules.some(...)\<close> raises a TypeError on
  an inherited member (it has no \<^verbatim>\<open>some\<close>), and the callback raises one when
  \<^verbatim>\<open>gps\<close> is missing; on an empty rule list the callback never runs.
\<close>

definition validateGeoFencing ::
  "rules \<Rightarrow> string option \<Rightarrow> gps_point option \<Rightarrow> reason + bool" where
  "validateGeoFencing r sp g =
     (case objGet (geoFencing r) (propKey sp) of
        Undefined \<Rightarrow> Inr False
      | Inherited \<Rightarrow> Inl JsTypeError
      | Own speciesRules \<Rightarrow>
          (if speciesRules = [] then Inr False
           else (case g of
                   None \<Rightarrow> Inl JsTypeError
                 | Some p \<Rightarrow> Inr (list_ex (inBounds p) speciesRules))))"

definition validateSeason ::
  "rules \<Rightarrow> env \<Rightarrow> string option \<Rightarrow> nat \<Rightarrow> reason + bool" where
  "validateSeason r e sp ts =
     (case objGet (seasonalRestrictions r) (propKey sp) of
        Undefined \<Rightarrow> Inr False
      | Inherited \<Rightarrow> Inl JsTypeError
      | Own allowedMonths \<Rightarrow> Inr (getMonth e ts + 1 \<in> set allowedMonths))"

definition todaysCollections ::
  "env \<Rightarrow> string option \<Rightarrow> string option \<Rightarrow> transaction list \<Rightarrow> nat \<Rightarrow> transaction list" where
  "todaysCollections e fid sp existingTransactions clock =
     filter (\<lambda>tx. ttype tx = ''CollectionEvent'' \<and>
                  farmerId (tdata tx) = fid \<and>
                  species (tdata tx) = sp \<and>
                  toDateString e (ttimestamp tx) = toDateString e clock)
            existingTransactions"

text \<open>
  \<^verbatim>\<open>todaysCollections.reduce((sum, tx) => sum + tx.data.quantity, 0)\<close>: the
  additions are additions of doubles, made from left to right.
\<close>

definition totalToday :: "transaction list \<Rightarrow> jsnum" where
  "totalToday txs = foldl (\<lambda>sum tx. numAdd sum (toNum (quantity (tdata tx)))) (Fin 0) txs"

text \<open>
  \<^verbatim>\<open>validateDailyLimit\<close>; \<open>clock\<close> is the reading of \<^verbatim>\<open>new Date()\<close> the
  function takes for "today". A limit of \<open>0\<close> is falsy and rejects; an inherited
  member is truthy and compares false with every number. The test is
  \<^verbatim>\<open>(totalToday + quantity) <= limit\<close> on doubles.
\<close>

definition validateDailyLimit ::
  "rules \<Rightarrow> env \<Rightarrow> string option \<Rightarrow> string option \<Rightarrow> real option \<Rightarrow>
   transaction list \<Rightarrow> nat \<Rightarrow> bool" where
  "validateDailyLimit r e fid sp q existingTransactions clock =
     (case objGet (dailyLimits r) (propKey sp) of
        Undefined \<Rightarrow> False
      | Inherited \<Rightarrow> False
      | Own limit \<Rightarrow>
          (if toDouble limit = Fin 0 then False
           else numLe (numAdd (totalToday (todaysCollections e fid sp existingTransactions clock))
                         (toNum q))
                      (toDouble limit)))"

datatype quality_check = QualityOk | QualityFail string

definition noThresholds :: thresholds where
  "noThresholds = \<lparr>moistureMax = None, withanolideMin = None,
                   pesticideMax = None, heavyMetalsMax = None\<rparr>"

definition checkQuality :: "thresholds \<Rightarrow> quality_metrics \<Rightarrow> quality_check" where
  "checkQuality th qm =
     (if jsGt (moisture qm) (moistureMax th) then
        QualityFail ''Moisture content exceeds maximum allowed''
      else if truthyNum (withanolide qm) \<and> jsLt (withanolide qm) (withanolideMin th) then
        QualityFail ''Withanolide content below minimum required''
      else if jsGt (pesticide qm) (pesticideMax th) then
        QualityFail ''Pesticide residue exceeds maximum allowed''
      else if jsGt (heavyMetals qm) (heavyMetalsMax th) then
        QualityFail ''Heavy metals exceed maximum allowed''
      else QualityOk)"

text \<open>
  \<^verbatim>\<open>validateQuality\<close>. An inherited member is truthy and has none of the four
  threshold properties.
\<close>

definition validateQuality :: "rules \<Rightarrow> string option \<Rightarrow> quality_metrics \<Rightarrow> quality_check" where
  "validateQuality r sp qm =
     (case objGet (qualityThresholds r) (propKey sp) of
        Undefined \<Rightarrow> QualityFail ''No quality rules defined for species''
      | Inherited \<Rightarrow> checkQuality noThresholds qm
      | Own th \<Rightarrow> checkQuality th qm)"

definition generateContractHash :: "env \<Rightarrow> transaction \<Rightarrow> string" where
  "generateContractHash e tx =
     sha256hex e (jsonContractData e (tid tx) (ttimestamp tx) (ttype tx) (tnodeId tx))"

definition collectionPassed :: "env \<Rightarrow> transaction \<Rightarrow> string \<Rightarrow> contract_result" where
  "collectionPassed e tx quality =
     \<lparr>valid = True, contractHash = generateContractHash e tx,
      validationRules =
        [(''geoFencing'', ''PASSED''), (''seasonalRestriction'', ''PASSED''),
         (''dailyLimit'', ''PASSED''), (''quality'', quality)]\<rparr>"

text \<open>
  \<^verbatim>\<open>executeCollectionEvent\<close>. The message of the geo-fence error reads
  \<^verbatim>\<open>gps.latitude\<close>, so with no \<^verbatim>\<open>gps\<close> the error raised is a TypeError.
\<close>

definition executeCollectionEvent ::
  "rules \<Rightarrow> env \<Rightarrow> transaction \<Rightarrow> transaction list \<Rightarrow> nat \<Rightarrow> reason + contract_result" where
  "executeCollectionEvent r e tx existingTransactions clock =
     (let d = tdata tx in
      case validateGeoFencing r (species d) (gps d) of
        Inl err \<Rightarrow> Inl err
      | Inr geoOk \<Rightarrow>
        if \<not> geoOk then (case gps d of None \<Rightarrow> Inl JsTypeError | Some _ \<Rightarrow> Inl GeoFenceViolation)
        else
          (case validateSeason r e (species d) (ttimestamp tx) of
             Inl err \<Rightarrow> Inl err
           | Inr seasonOk \<Rightarrow>
             if \<not> seasonOk then Inl SeasonViolation
             else if \<not> validateDailyLimit r e (farmerId d) (species d) (quantity d)
                        existingTransactions clock
             then Inl DailyLimitExceeded
             else
               (case qualityMetrics d of
                  None \<Rightarrow> Inr (collectionPassed e tx ''NOT_TESTED'')
                | Some qm \<Rightarrow>
                    (case validateQuality r (species d) qm of
                       QualityFail why \<Rightarrow> Inl (QualityFailed why)
                     | QualityOk \<Rightarrow> Inr (collectionPassed e tx ''PASSED'')))))"

definition batchExists :: "string option \<Rightarrow> transaction list \<Rightarrow> bool" where
  "batchExists b existingTransactions =
     list_ex (\<lambda>tx. batchId (tdata tx) = b \<or> Some (tid tx) = b) existingTransactions"

definition processingPassed :: "env \<Rightarrow> transaction \<Rightarrow> contract_result" where
  "processingPassed e tx =
     \<lparr>valid = True, contractHash = generateContractHash e tx,
      validationRules =
        [(''batchTraceability'', ''PASSED''), (''processingConditions'', ''PASSED'')]\<rparr>"

text \<open>
  \<^verbatim>\<open>executeProcessingStep\<close>. \<^verbatim>\<open>conditions\<close> is read only after the
  processing type matched, and the read raises a TypeError when it is missing.
\<close>

definition executeProcessingStep ::
  "env \<Rightarrow> transaction \<Rightarrow> transaction list \<Rightarrow> reason + contract_result" where
  "executeProcessingStep e tx existingTransactions =
     (let d = tdata tx in
      if \<not> batchExists (batchId d) existingTransactions then Inl BatchNotFound
      else
        (case conditions d of
           None \<Rightarrow>
             if processingType d = Some ''drying'' \<or> processingType d = Some ''grinding''
             then Inl JsTypeError
             else Inr (processingPassed e tx)
         | Some c \<Rightarrow>
             if processingType d = Some ''drying'' \<and> jsGt (temperature c) (Some 60)
             then Inl DryingTemperatureTooHigh
             else if processingType d = Some ''grinding'' \<and> jsLt (meshSize c) (Some 80)
             then Inl MeshSizeTooCoarse
             else Inr (processingPassed e tx)))"

definition certifiedLabs :: "string list" where
  "certifiedLabs = [''LAB001'', ''LAB002'', ''LAB003'']"

definition executeQualityTest ::
  "env \<Rightarrow> transaction \<Rightarrow> transaction list \<Rightarrow> reason + contract_result" where
  "executeQualityTest e tx existingTransactions =
     (let d = tdata tx in
      if \<not> batchExists (batchId d) existingTransactions then Inl BatchNotFound
      else if \<not> (case labId d of None \<Rightarrow> False | Some l \<Rightarrow> l \<in> set certifiedLabs)
      then Inl LabNotCertified
      else Inr \<lparr>valid = True, contractHash = generateContractHash e tx,
                validationRules =
                  [(''batchTraceability'', ''PASSED''), (''labCertification'', ''PASSED''),
                   (''testValidity'', ''PASSED'')]\<rparr>)"

section \<open>The ledger (PermissionedBlockchain)\<close>

record blockchain =
  chain :: "block list"
  pendingTransactions :: "transaction list"
  nodes :: "string \<rightharpoonup> node"
  smartContract :: rules
  difficulty :: nat

datatype error =
    InvalidNodeType string
  | NodeNotFoundOrInactive string
  | PermissionDenied string string
  | ContractValidationFailed reason
  | NoPendingTransactions
  | RuntimeTypeError

text \<open>
  \<^verbatim>\<open>calculateHash\<close> reads five properties of its argument and replaces each
  falsy one by a default. The two numbers \<^verbatim>\<open>index\<close> and \<^verbatim>\<open>timestamp\<close> are
  added as numbers before the first string joins the sum.
\<close>

definition calculateHashOf ::
  "env \<Rightarrow> nat option \<Rightarrow> nat option \<Rightarrow> transaction list option \<Rightarrow> string option \<Rightarrow>
   nat option \<Rightarrow> string" where
  "calculateHashOf e idx ts txs prev n =
     sha256hex e
       (showNat ((case idx of None \<Rightarrow> 0 | Some i \<Rightarrow> i) + (case ts of None \<Rightarrow> 0 | Some t \<Rightarrow> t)) @
        jsonTransactions e (case txs of None \<Rightarrow> [] | Some l \<Rightarrow> l) @
        (case prev of None \<Rightarrow> [] | Some p \<Rightarrow> p) @
        showNat (case n of None \<Rightarrow> 0 | Some k \<Rightarrow> k))"

definition calculateHash :: "env \<Rightarrow> block \<Rightarrow> string" where
  "calculateHash e b =
     calculateHashOf e (Some (index b)) (Some (timestamp b)) (Some (transactions b))
       (previousHash b) (Some (nonce b))"

text \<open>
  \<^verbatim>\<open>createGenesisBlock\<close>: the digest is \<^verbatim>\<open>calculateHash([])\<close>, the digest of
  an argument with none of the five properties; no proof of work is run.
\<close>

definition createGenesisBlock :: "env \<Rightarrow> string \<Rightarrow> nat \<Rightarrow> nat \<Rightarrow> block" where
  "createGenesisBlock e uid now now' =
     \<lparr>index = 0, timestamp = now,
      transactions =
        [\<lparr>tid = uid, ttype = ''Genesis'',
          tdata = \<lparr>farmerId = None, species = None, gps = None, quantity = None,
                    qualityMetrics = None, batchId = None, processingType = None,
                    conditions = None, labId = None,
                    message = Some ''Ayurvedic Herb Traceability Blockchain Genesis'',
                    dataNodeId = None, dataNodeType = None\<rparr>,
          tnodeId = ''SYSTEM'', ttimestamp = now', signature = ''GENESIS_SIGNATURE'',
          contractValidation = None\<rparr>],
      previousHash = Some ''0'',
      minerId = None, nonce = 0,
      hash = Some (calculateHashOf e None None None None None)\<rparr>"

definition newBlockchain :: "env \<Rightarrow> string \<Rightarrow> nat \<Rightarrow> nat \<Rightarrow> blockchain" where
  "newBlockchain e uid now now' =
     \<lparr>chain = [createGenesisBlock e uid now now'], pendingTransactions = [],
      nodes = Map.empty, smartContract = defaultRules, difficulty = 2\<rparr>"

definition allowedTypes :: "string list" where
  "allowedTypes = [''farmer'', ''processor'', ''lab'', ''manufacturer'', ''regulator'']"

text \<open>
  \<^verbatim>\<open>getNodePermissions\<close>. \<^verbatim>\<open>registerNode\<close> calls it after the
  \<^verbatim>\<open>allowedTypes\<close> check only, so the key is always an own key of the table.
\<close>

definition getNodePermissions :: "string \<Rightarrow> string list" where
  "getNodePermissions nodeType =
     (case objGet
        [(''farmer'', [''create_collection_event'', ''read_own_data'']),
         (''processor'', [''create_processing_step'', ''read_batch_data'']),
         (''lab'', [''create_quality_test'', ''read_test_data'']),
         (''manufacturer'', [''create_manufacturing_record'', ''generate_qr'']),
         (''regulator'', [''read_all_data'', ''create_compliance_report'', ''flag_violations''])]
        nodeType of
        Own ps \<Rightarrow> ps
      | _ \<Rightarrow> [])"

text \<open>
  \<^verbatim>\<open>registerNode\<close>: \<^verbatim>\<open>this.nodes.set\<close> stores the node under its id,
  whether or not the id is already a key.
\<close>

definition registerNode ::
  "blockchain \<Rightarrow> nat \<Rightarrow> nat \<Rightarrow> string \<Rightarrow> string \<Rightarrow> string \<Rightarrow> (string \<times> string) list \<Rightarrow>
   (error + (bool \<times> string \<times> nat)) \<times> blockchain" where
  "registerNode bc now now' nodeId nodeType pk md =
     (if nodeType \<notin> set allowedTypes then (Inl (InvalidNodeType nodeType), bc)
      else
        (Inr (True, nodeId, now'),
         bc\<lparr>nodes := (nodes bc)(nodeId \<mapsto>
               \<lparr>nid = nodeId, ntype = nodeType, publicKey = pk, metadata = md,
                registeredAt = now, active = True,
                permissions = getNodePermissions nodeType\<rparr>)\<rparr>))"

datatype required = Permission string | InheritedMember

text \<open>
  \<^verbatim>\<open>getRequiredPermission\<close>: \<^verbatim>\<open>permissionMap[type] || 'read_own_data'\<close>.
  The default applies when the read is \<^verbatim>\<open>undefined\<close>; an inherited member is
  truthy and is returned as it is.
\<close>

definition getRequiredPermission :: "string \<Rightarrow> required" where
  "getRequiredPermission type =
     (case objGet
        [(''CollectionEvent'', ''create_collection_event''),
         (''ProcessingStep'', ''create_processing_step''),
         (''QualityTest'', ''create_quality_test''),
         (''ManufacturingRecord'', ''create_manufacturing_record''),
         (''ComplianceReport'', ''create_compliance_report'')]
        type of
        Own p \<Rightarrow> Permission p
      | Inherited \<Rightarrow> InheritedMember
      | Undefined \<Rightarrow> Permission ''read_own_data'')"

definition includesPermission :: "string list \<Rightarrow> required \<Rightarrow> bool" where
  "includesPermission ps req =
     (case req of Permission p \<Rightarrow> p \<in> set ps | InheritedMember \<Rightarrow> False)"

definition signTransaction :: "env \<Rightarrow> transaction \<Rightarrow> string \<Rightarrow> string" where
  "signTransaction e tx nodeId =
     sha256hex e (jsonSignData e (tid tx) (ttype tx) (tdata tx) (ttimestamp tx) @ nodeId)"

definition getAllTransactions :: "blockchain \<Rightarrow> transaction list" where
  "getAllTransactions bc = concat (map transactions (chain bc))"

text \<open>
  The transaction object \<^verbatim>\<open>createTransaction\<close> builds before the contract
  runs: \<open>uid\<close> is the value of \<^verbatim>\<open>uuidv4()\<close>, \<open>now\<close> the reading of
  \<^verbatim>\<open>Date.now()\<close>. \<open>transactionData\<close> has no signature yet; the empty string
  stands for the missing property, which \<^verbatim>\<open>signTransaction\<close> does not read.
\<close>

definition signedTransaction ::
  "env \<Rightarrow> node \<Rightarrow> string \<Rightarrow> nat \<Rightarrow> string \<Rightarrow> string \<Rightarrow> txdata \<Rightarrow> transaction" where
  "signedTransaction e nd uid now nodeId type d =
     (let transactionData =
            \<lparr>tid = uid, ttype = type,
             tdata = d\<lparr>dataNodeId := Some nodeId, dataNodeType := Some (ntype nd)\<rparr>,
             tnodeId = nodeId, ttimestamp = now, signature = [],
             contractValidation = None\<rparr>
      in transactionData\<lparr>signature := signTransaction e transactionData nodeId\<rparr>)"

text \<open>
  The \<^verbatim>\<open>switch\<close> of \<^verbatim>\<open>createTransaction\<close>. The history handed to the
  contract is \<^verbatim>\<open>this.getAllTransactions()\<close>; \<open>clock\<close> is the later reading of
  the time the daily limit takes.
\<close>

definition executeContract ::
  "env \<Rightarrow> blockchain \<Rightarrow> string \<Rightarrow> transaction \<Rightarrow> nat \<Rightarrow> reason + contract_result" where
  "executeContract e bc type tx clock =
     (if type = ''CollectionEvent'' then
        executeCollectionEvent (smartContract bc) e tx (getAllTransactions bc) clock
      else if type = ''ProcessingStep'' then
        executeProcessingStep e tx (getAllTransactions bc)
      else if type = ''QualityTest'' then
        executeQualityTest e tx (getAllTransactions bc)
      else Inr \<lparr>valid = True, contractHash = ''SYSTEM_APPROVED'', validationRules = []\<rparr>)"

text \<open>
  \<^verbatim>\<open>createTransaction\<close>. The result pairs what the call returns or throws
  with the ledger it leaves; the only write is the \<^verbatim>\<open>push\<close> at the end.
\<close>

definition createTransaction ::
  "env \<Rightarrow> blockchain \<Rightarrow> string \<Rightarrow> nat \<Rightarrow> nat \<Rightarrow> string \<Rightarrow> string \<Rightarrow> txdata \<Rightarrow>
   (error + transaction) \<times> blockchain" where
  "createTransaction e bc uid now clock nodeId type d =
     (case nodes bc nodeId of
        None \<Rightarrow> (Inl (NodeNotFoundOrInactive nodeId), bc)
      | Some nd \<Rightarrow>
          if \<not> active nd then (Inl (NodeNotFoundOrInactive nodeId), bc)
          else if \<not> includesPermission (permissions nd) (getRequiredPermission type)
          then (Inl (PermissionDenied nodeId type), bc)
          else
            (let tx = signedTransaction e nd uid now nodeId type d
             in case executeContract e bc type tx clock of
                  Inl why \<Rightarrow> (Inl (ContractValidationFailed why), bc)
                | Inr res \<Rightarrow>
                    (Inr (tx\<lparr>contractValidation := Some res\<rparr>),
                     bc\<lparr>pendingTransactions :=
                          pendingTransactions bc @ [tx\<lparr>contractValidation := Some res\<rparr>]\<rparr>)))"

definition getLatestBlock :: "blockchain \<Rightarrow> block option" where
  "getLatestBlock bc = (if chain bc = [] then None else Some (last (chain bc)))"

text \<open>
  The proof-of-work loop of \<^verbatim>\<open>mineBlock\<close>. The candidate starts without a
  digest, so the first test succeeds and the first nonce tried is \<open>1\<close>. The loop
  has no bound: the function is partial, \<open>None\<close> when it never ends.
\<close>

partial_function (option) proofOfWork :: "env \<Rightarrow> nat \<Rightarrow> block \<Rightarrow> block option" where
  "proofOfWork e d b =
     (if map_option (take d) (hash b) \<noteq> Some (replicate d (CHR ''0''))
      then proofOfWork e d
             (b\<lparr>nonce := nonce b + 1,
                hash := Some (calculateHash e (b\<lparr>nonce := nonce b + 1\<rparr>))\<rparr>)
      else Some b)"

text \<open>The block \<^verbatim>\<open>mineBlock\<close> builds before the search; it has no digest yet.\<close>

definition newBlock :: "blockchain \<Rightarrow> block \<Rightarrow> nat \<Rightarrow> string \<Rightarrow> block" where
  "newBlock bc latest now miner =
     \<lparr>index = length (chain bc), timestamp = now, transactions = pendingTransactions bc,
      previousHash = hash latest, minerId = Some miner, nonce = 0, hash = None\<rparr>"

text \<open>
  \<^verbatim>\<open>mineBlock\<close>; \<open>None\<close> when the loop does not end. On an empty chain
  \<^verbatim>\<open>getLatestBlock().hash\<close> raises a TypeError.
\<close>

definition mineBlock ::
  "env \<Rightarrow> blockchain \<Rightarrow> nat \<Rightarrow> string \<Rightarrow> ((error + block) \<times> blockchain) option" where
  "mineBlock e bc now miner =
     (if pendingTransactions bc = [] then Some (Inl NoPendingTransactions, bc)
      else
        (case getLatestBlock bc of
           None \<Rightarrow> Some (Inl RuntimeTypeError, bc)
         | Some latest \<Rightarrow>
             (case proofOfWork e (difficulty bc) (newBlock bc latest now miner) of
                None \<Rightarrow> None
              | Some b \<Rightarrow>
                  Some (Inr b, bc\<lparr>chain := chain bc @ [b], pendingTransactions := []\<rparr>))))"

definition getTransactionById :: "blockchain \<Rightarrow> string \<Rightarrow> transaction option" where
  "getTransactionById bc transactionId =
     find (\<lambda>tx. tid tx = transactionId) (getAllTransactions bc)"

definition getTransactionsByBatchId :: "blockchain \<Rightarrow> string \<Rightarrow> transaction list" where
  "getTransactionsByBatchId bc b =
     filter (\<lambda>tx. batchId (tdata tx) = Some b \<or> tid tx = b) (getAllTransactions bc)"

text \<open>
  \<^verbatim>\<open>isChainValid\<close>: the loop runs over the indices \<open>1, ..., length - 1\<close> and
  returns false at the first block whose stored digest differs from the
  recomputed one or whose \<^verbatim>\<open>previousHash\<close> differs from the digest stored in
  the block before it.
\<close>

definition blockValidAt :: "env \<Rightarrow> block list \<Rightarrow> nat \<Rightarrow> bool" where
  "blockValidAt e c i =
     (\<not> (hash (c ! i) \<noteq> Some (calculateHash e (c ! i))) \<and>
      \<not> (previousHash (c ! i) \<noteq> hash (c ! (i - 1))))"

definition isChainValid :: "env \<Rightarrow> blockchain \<Rightarrow> bool" where
  "isChainValid e bc = list_all (blockValidAt e (chain bc)) [1..<length (chain bc)]"

text \<open>
  What sealing establishes for the block at position \<open>i\<close>: the stored digest is
  the digest of the block, it meets the difficulty \<open>d\<close>, and the block is linked
  to the one before it and numbered by its position.
\<close>

definition sealedAt :: "env \<Rightarrow> nat \<Rightarrow> block list \<Rightarrow> nat \<Rightarrow> bool" where
  "sealedAt e d c i =
     (hash (c ! i) = Some (calculateHash e (c ! i)) \<and>
      take d (calculateHash e (c ! i)) = replicate d CHR ''0'' \<and>
      previousHash (c ! i) = hash (c ! (i - 1)) \<and>
      index (c ! i) = i)"

text \<open>The ledgers the operations can produce, starting from the constructor.\<close>

inductive reachable :: "env \<Rightarrow> blockchain \<Rightarrow> bool" for e :: env where
  constructed: "reachable e (newBlockchain e uid now now')"
| registered: "reachable e bc \<Longrightarrow>
     reachable e (snd (registerNode bc now now' nodeId nodeType pk md))"
| submitted: "reachable e bc \<Longrightarrow>
     reachable e (snd (createTransaction e bc uid now clock nodeId type d))"
| mined: "reachable e bc \<Longrightarrow> mineBlock e bc now miner = Some (res, bc') \<Longrightarrow>
     reachable e bc'"

section \<open>A runtime to run the code on\<close>

subsection \<open>SHA-256 (FIPS 180-4), on 32-bit words held as naturals\<close>

definition K256 :: "nat list" where
  "K256 =
    [1116352408, 1899447441, 3049323471, 3921009573, 961987163, 1508970993,
     2453635748, 2870763221, 3624381080, 310598401, 607225278, 1426881987,
     1925078388, 2162078206, 2614888103, 3248222580, 3835390401, 4022224774,
     264347078, 604807628, 770255983, 1249150122, 1555081692, 1996064986,
     2554220882, 2821834349, 2952996808, 3210313671, 3336571891, 3584528711,
     113926993, 338241895, 666307205, 773529912, 1294757372, 1396182291,
     1695183700, 1986661051, 2177026350, 2456956037, 2730485921, 2820302411,
     3259730800, 3345764771, 3516065817, 3600352804, 4094571909, 275423344,
     430227734, 506948616, 659060556, 883997877, 958139571, 1322822218,
     1537002063, 1747873779, 1955562222, 2024104815, 2227730452, 2361852424,
     2428436474, 2756734187, 3204031479, 3329325298]"

definition H256 :: "nat list" where
  "H256 =
    [1779033703, 3144134277, 1013904242, 2773480762,
     1359893119, 2600822924, 528734635, 1541459225]"

definition add32 :: "nat \<Rightarrow> nat \<Rightarrow> nat" where
  "add32 x y = (x + y) mod 4294967296"

definition rotr :: "nat \<Rightarrow> nat \<Rightarrow> nat" where
  "rotr n w = w div 2 ^ n + (w mod 2 ^ n) * 2 ^ (32 - n)"

definition not32 :: "nat \<Rightarrow> nat" where
  "not32 x = 4294967295 - x"

definition bsig0 :: "nat \<Rightarrow> nat" where
  "bsig0 x = rotr 2 x XOR rotr 13 x XOR rotr 22 x"

definition bsig1 :: "nat \<Rightarrow> nat" where
  "bsig1 x = rotr 6 x XOR rotr 11 x XOR rotr 25 x"

definition ssig0 :: "nat \<Rightarrow> nat" where
  "ssig0 x = rotr 7 x XOR rotr 18 x XOR x div 2 ^ 3"

definition ssig1 :: "nat \<Rightarrow> nat" where
  "ssig1 x = rotr 17 x XOR rotr 19 x XOR x div 2 ^ 10"

definition ch :: "nat \<Rightarrow> nat \<Rightarrow> nat \<Rightarrow> nat" where
  "ch x y z = (x AND y) XOR (not32 x AND z)"

definition maj :: "nat \<Rightarrow> nat \<Rightarrow> nat \<Rightarrow> nat" where
  "maj x y z = (x AND y) XOR (x AND z) XOR (y AND z)"

text \<open>The message schedule, newest word first.\<close>

fun schedule :: "nat \<Rightarrow> nat list \<Rightarrow> nat list" where
  "schedule 0 ws = ws"
| "schedule (Suc n) ws =
     schedule n
       (add32 (add32 (ssig1 (ws ! 1)) (ws ! 6)) (add32 (ssig0 (ws ! 14)) (ws ! 15)) # ws)"

definition rnd :: "nat list \<Rightarrow> nat \<times> nat \<Rightarrow> nat list" where
  "rnd st kw =
     (let t1 = add32 (add32 (add32 (st ! 7) (bsig1 (st ! 4)))
                        (add32 (ch (st ! 4) (st ! 5) (st ! 6)) (fst kw))) (snd kw);
          t2 = add32 (bsig0 (st ! 0)) (maj (st ! 0) (st ! 1) (st ! 2))
      in [add32 t1 t2, st ! 0, st ! 1, st ! 2, add32 (st ! 3) t1, st ! 4, st ! 5, st ! 6])"

definition compress :: "nat list \<Rightarrow> nat list \<Rightarrow> nat list" where
  "compress st blk = map2 add32 st (foldl rnd st (zip K256 (rev (schedule 48 (rev blk)))))"

definition be32 :: "nat list \<Rightarrow> nat" where
  "be32 bs = foldl (\<lambda>acc b. acc * 256 + b) 0 bs"

fun chunks :: "nat \<Rightarrow> 'a list \<Rightarrow> 'a list list" where
  "chunks n [] = []"
| "chunks n xs = (if n = 0 then [xs] else take n xs # chunks n (drop n xs))"

definition pad :: "nat list \<Rightarrow> nat list" where
  "pad m =
     (let l = length m; z = (119 - l mod 64) mod 64; len = 8 * l
      in m @ [128] @ replicate z 0 @ map (\<lambda>i. (len div 256 ^ (7 - i)) mod 256) [0..<8])"

definition hexdigit :: "nat \<Rightarrow> char" where
  "hexdigit n = (''0123456789abcdef'' ! n)"

definition hex32 :: "nat \<Rightarrow> string" where
  "hex32 w = map (\<lambda>i. hexdigit ((w div 16 ^ (7 - i)) mod 16)) [0..<8]"

definition sha256 :: "string \<Rightarrow> string" where
  "sha256 s =
     concat (map hex32
       (foldl compress H256 (map (map be32 \<circ> chunks 4) (chunks 64 (pad (map of_char s))))))"

subsection \<open>The calendar of a process in UTC\<close>

definition monthOfDays :: "nat \<Rightarrow> nat" where
  "monthOfDays days =
     (let doe = (days + 719468) mod 146097;
          yoe = (doe - doe div 1460 + doe div 36524 - doe div 146096) div 365;
          doy = doe - (365 * yoe + yoe div 4 - yoe div 100);
          mp = (5 * doy + 2) div 153
      in if mp < 10 then mp + 3 else mp - 9)"

definition utcMonth :: "nat \<Rightarrow> nat" where
  "utcMonth ms = monthOfDays (ms div 86400000) - 1"

text \<open>
  Two timestamps have the same \<^verbatim>\<open>toDateString()\<close> exactly when they fall on
  the same calendar day; the day number stands for the string.
\<close>

definition utcDateString :: "nat \<Rightarrow> string" where
  "utcDateString ms = showNat (ms div 86400000)"

subsection \<open>Serialisers and digests\<close>

definition quoted :: "string \<Rightarrow> string" where
  "quoted s = CHR 0x22 # s @ [CHR 0x22]"

definition optField :: "string \<Rightarrow> string option \<Rightarrow> string" where
  "optField k v = (case v of None \<Rightarrow> [] | Some s \<Rightarrow> quoted k @ '':'' @ quoted s @ '','')"

text \<open>
  A serialiser in the manner of \<^verbatim>\<open>JSON.stringify\<close> for the string-valued
  properties; the empty array is \<^verbatim>\<open>[]\<close> as in JavaScript.
\<close>

definition dataJson :: "txdata \<Rightarrow> string" where
  "dataJson d =
     ''{'' @ optField ''farmerId'' (farmerId d) @ optField ''species'' (species d) @
     optField ''batchId'' (batchId d) @ optField ''processingType'' (processingType d) @
     optField ''labId'' (labId d) @ optField ''message'' (message d) @
     optField ''nodeId'' (dataNodeId d) @ optField ''nodeType'' (dataNodeType d) @ ''}''"

definition signJson :: "string \<Rightarrow> string \<Rightarrow> txdata \<Rightarrow> nat \<Rightarrow> string" where
  "signJson i ty d ts =
     ''{'' @ quoted ''id'' @ '':'' @ quoted i @ '','' @ quoted ''type'' @ '':'' @ quoted ty @
     '','' @ quoted ''data'' @ '':'' @ dataJson d @ '','' @ quoted ''timestamp'' @ '':'' @
     showNat ts @ ''}''"

definition contractJson :: "string \<Rightarrow> nat \<Rightarrow> string \<Rightarrow> string \<Rightarrow> string" where
  "contractJson i ts ty n =
     ''{'' @ quoted ''transactionId'' @ '':'' @ quoted i @ '','' @ quoted ''timestamp'' @
     '':'' @ showNat ts @ '','' @ quoted ''type'' @ '':'' @ quoted ty @ '','' @
     quoted ''nodeId'' @ '':'' @ quoted n @ ''}''"

definition txJson :: "transaction \<Rightarrow> string" where
  "txJson tx =
     ''{'' @ quoted ''id'' @ '':'' @ quoted (tid tx) @ '','' @ quoted ''type'' @ '':'' @
     quoted (ttype tx) @ '','' @ quoted ''data'' @ '':'' @ dataJson (tdata tx) @ '','' @
     quoted ''nodeId'' @ '':'' @ quoted (tnodeId tx) @ '','' @ quoted ''timestamp'' @ '':'' @
     showNat (ttimestamp tx) @ '','' @ quoted ''signature'' @ '':'' @
     quoted (signature tx) @ ''}''"

fun commaSep :: "string list \<Rightarrow> string" where
  "commaSep [] = []"
| "commaSep [x] = x"
| "commaSep (x # y # ys) = x @ '','' @ commaSep (y # ys)"

definition txsJson :: "transaction list \<Rightarrow> string" where
  "txsJson txs = ''['' @ commaSep (map txJson txs) @ '']''"

text \<open>
  \<open>nodeEnv\<close> digests with SHA-256. \<open>stubEnv\<close> replaces the digest by one that
  is injective and always meets the difficulty, so that the sealing loop can be
  run without a search.
\<close>

definition nodeEnv :: env where
  "nodeEnv =
     \<lparr>sha256hex = sha256, jsonTransactions = txsJson, jsonSignData = signJson,
      jsonContractData = contractJson, toDateString = utcDateString, getMonth = utcMonth\<rparr>"

definition stubEnv :: env where
  "stubEnv = nodeEnv\<lparr>sha256hex := (\<lambda>s. ''00'' @ s)\<rparr>"

section \<open>Example ledgers\<close>

text \<open>
  The block the search loop returns when the first nonce it tries meets the
  difficulty, and the ledger \<^verbatim>\<open>mineBlock\<close> leaves then.
\<close>

definition firstNonceBlock :: "env \<Rightarrow> blockchain \<Rightarrow> nat \<Rightarrow> string \<Rightarrow> block" where
  "firstNonceBlock e bc now miner =
     (newBlock bc (last (chain bc)) now miner)
       \<lparr>nonce := 1,
        hash := Some (calculateHash e ((newBlock bc (last (chain bc)) now miner)\<lparr>nonce := 1\<rparr>))\<rparr>"

definition sealedAtFirstNonce :: "env \<Rightarrow> blockchain \<Rightarrow> nat \<Rightarrow> string \<Rightarrow> blockchain" where
  "sealedAtFirstNonce e bc now miner =
     bc\<lparr>chain := chain bc @ [firstNonceBlock e bc now miner], pendingTransactions := []\<rparr>"

text \<open>10:00 UTC on 15 December 2024, in milliseconds.\<close>

definition day1 :: nat where
  "day1 = 1734256800000"

text \<open>A harvest of \<open>q\<close> kg of ashwagandha at a point in Rajasthan.\<close>

definition collection :: "real \<Rightarrow> txdata" where
  "collection q =
     \<lparr>farmerId = Some ''FARMER001'', species = Some ''ashwagandha'',
      gps = Some \<lparr>latitude = Some (271952 / 10000), longitude = Some (733119 / 10000)\<rparr>,
      quantity = Some q, qualityMetrics = None, batchId = None, processingType = None,
      conditions = None, labId = None, message = None, dataNodeId = None,
      dataNodeType = None\<rparr>"

definition farmerNode :: node where
  "farmerNode =
     \<lparr>nid = ''FARMER001'', ntype = ''farmer'', publicKey = ''PK'', metadata = [],
      registeredAt = day1, active = True,
      permissions = [''create_collection_event'', ''read_own_data'']\<rparr>"

text \<open>The event the ledger admits for such a harvest by the farmer.\<close>

definition harvest :: "string \<Rightarrow> real \<Rightarrow> transaction" where
  "harvest uid q =
     (signedTransaction stubEnv farmerNode uid day1 ''FARMER001'' ''CollectionEvent''
        (collection q))
       \<lparr>contractValidation :=
          Some (collectionPassed stubEnv
                  (signedTransaction stubEnv farmerNode uid day1 ''FARMER001''
                     ''CollectionEvent'' (collection q))
                  ''NOT_TESTED'')\<rparr>"

text \<open>
  \<open>ledgerA\<close>: a new ledger with one farmer. \<open>ledgerB\<close>: the farmer has
  submitted 30 kg, still pooled. \<open>ledgerC\<close>: the pool sealed into block 1.
  \<open>ledgerD\<close>: a further 15 kg submitted. \<open>ledgerE\<close>: sealed into block 2.
\<close>

definition ledgerA :: blockchain where
  "ledgerA = snd (registerNode (newBlockchain stubEnv ''uuid-0'' day1 day1) day1 day1
                    ''FARMER001'' ''farmer'' ''PK'' [])"

definition ledgerB :: blockchain where
  "ledgerB = snd (createTransaction stubEnv ledgerA ''uuid-1'' day1 day1
                    ''FARMER001'' ''CollectionEvent'' (collection 30))"

definition ledgerC :: blockchain where
  "ledgerC = sealedAtFirstNonce stubEnv ledgerB day1 ''MINER''"

definition ledgerD :: blockchain where
  "ledgerD = snd (createTransaction stubEnv ledgerC ''uuid-2'' day1 day1
                    ''FARMER001'' ''CollectionEvent'' (collection 15))"

definition ledgerE :: blockchain where
  "ledgerE = sealedAtFirstNonce stubEnv ledgerD day1 ''MINER''"

text \<open>The 30 kg harvest with the payload rewritten to name another farmer.\<close>

definition forged :: transaction where
  "forged = (harvest ''uuid-1'' 30)
              \<lparr>tdata := (tdata (harvest ''uuid-1'' 30))\<lparr>farmerId := Some ''FARMER002''\<rparr>\<rparr>"

text \<open>\<open>ledgerM\<close>: \<open>ledgerA\<close> with a manufacturer registered as well.\<close>

definition manufacturerNode :: node where
  "manufacturerNode =
     \<lparr>nid = ''MFR001'', ntype = ''manufacturer'', publicKey = ''PK'', metadata = [],
      registeredAt = day1, active = True,
      permissions = [''create_manufacturing_record'', ''generate_qr'']\<rparr>"

definition ledgerM :: blockchain where
  "ledgerM = snd (registerNode ledgerA day1 day1 ''MFR001'' ''manufacturer'' ''PK'' [])"

text \<open>Quality metrics that report a withanolide content of \<open>w\<close> and nothing else.\<close>

definition withanolideOnly :: "real \<Rightarrow> quality_metrics" where
  "withanolideOnly w =
     \<lparr>moisture = None, withanolide = Some w, pesticide = None, heavyMetals = None\<rparr>"

section \<open>Facts about the operations\<close>

subsection \<open>What registration and submission leave alone\<close>

lemma registerNode_frame [simp]:
  "chain (snd (registerNode bc now now' n t pk md)) = chain bc"
  "pendingTransactions (snd (registerNode bc now now' n t pk md)) = pendingTransactions bc"
  "difficulty (snd (registerNode bc now now' n t pk md)) = difficulty bc"
  "smartContract (snd (registerNode bc now now' n t pk md)) = smartContract bc"
  by (simp_all add: registerNode_def)

lemma createTransaction_frame [simp]:
  "chain (snd (createTransaction e bc uid now clock n t d)) = chain bc"
  "nodes (snd (createTransaction e bc uid now clock n t d)) = nodes bc"
  "difficulty (snd (createTransaction e bc uid now clock n t d)) = difficulty bc"
  "smartContract (snd (createTransaction e bc uid now clock n t d)) = smartContract bc"
  by (simp_all add: createTransaction_def Let_def split: option.splits sum.splits)

lemma signedTransaction_fields [simp]:
  "tid (signedTransaction e nd uid now n t d) = uid"
  "ttype (signedTransaction e nd uid now n t d) = t"
  "tnodeId (signedTransaction e nd uid now n t d) = n"
  "ttimestamp (signedTransaction e nd uid now n t d) = now"
  "tdata (signedTransaction e nd uid now n t d) =
     d\<lparr>dataNodeId := Some n, dataNodeType := Some (ntype nd)\<rparr>"
  by (simp_all add: signedTransaction_def)

lemma createTransaction_rejected:
  assumes "fst (createTransaction e bc uid now clock n t d) = Inl err"
  shows "snd (createTransaction e bc uid now clock n t d) = bc"
  using assms
  by (auto simp: createTransaction_def Let_def split: option.splits sum.splits if_splits)

lemma createTransaction_admitted:
  assumes "createTransaction e bc uid now clock n t d = (Inr tx, bc')"
  shows "\<exists>nd res. nodes bc n = Some nd \<and> active nd \<and>
           includesPermission (permissions nd) (getRequiredPermission t) \<and>
           executeContract e bc t (signedTransaction e nd uid now n t d) clock = Inr res \<and>
           tx = (signedTransaction e nd uid now n t d)\<lparr>contractValidation := Some res\<rparr> \<and>
           bc' = bc\<lparr>pendingTransactions := pendingTransactions bc @ [tx]\<rparr>"
  using assms
  by (auto simp: createTransaction_def Let_def split: option.splits sum.splits if_splits)

lemma createTransaction_passes:
  assumes "nodes bc n = Some nd" and "active nd"
    and "includesPermission (permissions nd) (getRequiredPermission t)"
    and "executeContract e bc t (signedTransaction e nd uid now n t d) clock = Inr res"
  shows "createTransaction e bc uid now clock n t d =
           (Inr ((signedTransaction e nd uid now n t d)\<lparr>contractValidation := Some res\<rparr>),
            bc\<lparr>pendingTransactions := pendingTransactions bc @
                  [(signedTransaction e nd uid now n t d)\<lparr>contractValidation := Some res\<rparr>]\<rparr>)"
  using assms by (simp add: createTransaction_def Let_def)

lemma createTransaction_fails:
  assumes "nodes bc n = Some nd" and "active nd"
    and "includesPermission (permissions nd) (getRequiredPermission t)"
    and "executeContract e bc t (signedTransaction e nd uid now n t d) clock = Inl why"
  shows "createTransaction e bc uid now clock n t d = (Inl (ContractValidationFailed why), bc)"
  using assms by (simp add: createTransaction_def Let_def)

subsection \<open>The search loop\<close>

lemma calculateHash_hash_upd [simp]: "calculateHash e (b\<lparr>hash := h\<rparr>) = calculateHash e b"
  by (simp add: calculateHash_def)

text \<open>What the loop returns, when it returns.\<close>

lemma proofOfWork_result:
  assumes "proofOfWork e d b = Some b'"
  shows "index b' = index b \<and> timestamp b' = timestamp b \<and>
         transactions b' = transactions b \<and> previousHash b' = previousHash b \<and>
         minerId b' = minerId b \<and>
         map_option (take d) (hash b') = Some (replicate d (CHR ''0'')) \<and>
         (hash b = None \<or> hash b = Some (calculateHash e b) \<longrightarrow>
            hash b' = Some (calculateHash e b'))"
proof (rule proofOfWork.raw_induct [OF _ assms])
  fix pow e d b y
  assume IH: "\<And>e d b y. pow e d b = Some y \<Longrightarrow>
         index y = index b \<and> timestamp y = timestamp b \<and>
         transactions y = transactions b \<and> previousHash y = previousHash b \<and>
         minerId y = minerId b \<and>
         map_option (take d) (hash y) = Some (replicate d (CHR ''0'')) \<and>
         (hash b = None \<or> hash b = Some (calculateHash e b) \<longrightarrow>
            hash y = Some (calculateHash e y))"
    and step: "(if map_option (take d) (hash b) \<noteq> Some (replicate d CHR ''0'')
      then pow e d
            (b\<lparr>nonce := nonce b + 1,
                 hash := Some (calculateHash e (b\<lparr>nonce := nonce b + 1\<rparr>))\<rparr>)
      else Some b) = Some y"
  show "index y = index b \<and> timestamp y = timestamp b \<and>
         transactions y = transactions b \<and> previousHash y = previousHash b \<and>
         minerId y = minerId b \<and>
         map_option (take d) (hash y) = Some (replicate d (CHR ''0'')) \<and>
         (hash b = None \<or> hash b = Some (calculateHash e b) \<longrightarrow>
            hash y = Some (calculateHash e y))"
  proof (cases "map_option (take d) (hash b) \<noteq> Some (replicate d CHR ''0'')")
    case True
    with step have "pow e d (b\<lparr>nonce := nonce b + 1,
                 hash := Some (calculateHash e (b\<lparr>nonce := nonce b + 1\<rparr>))\<rparr>) = Some y"
      by (auto split: if_splits)
    from IH [OF this] show ?thesis by auto
  next
    case False
    with step have "y = b" by (auto split: if_splits)
    with False show ?thesis by auto
  qed
qed

text \<open>The loop returns as soon as some later nonce meets the difficulty.\<close>

lemma proofOfWork_finds:
  assumes "hash c = Some (calculateHash e c)"
    and "take d (calculateHash e (c\<lparr>nonce := nonce c + k\<rparr>)) = replicate d CHR ''0''"
  shows "proofOfWork e d c \<noteq> None"
  using assms
proof (induction k arbitrary: c)
  case 0
  then show ?case by (subst proofOfWork.simps) simp
next
  case (Suc k)
  let ?c' = "c\<lparr>nonce := nonce c + 1,
                hash := Some (calculateHash e (c\<lparr>nonce := nonce c + 1\<rparr>))\<rparr>"
  have h: "hash ?c' = Some (calculateHash e ?c')" by simp
  have g: "take d (calculateHash e (?c'\<lparr>nonce := nonce ?c' + k\<rparr>)) = replicate d CHR ''0''"
    using Suc.prems(2) by (simp add: calculateHash_def)
  from Suc.IH [OF h g] show ?case
    by (subst proofOfWork.simps) simp
qed

lemma proofOfWork_terminates:
  assumes "hash c = None"
    and "take d (calculateHash e (c\<lparr>nonce := nonce c + Suc k\<rparr>)) = replicate d CHR ''0''"
  shows "\<exists>b. proofOfWork e d c = Some b"
proof -
  let ?c' = "c\<lparr>nonce := nonce c + 1,
                hash := Some (calculateHash e (c\<lparr>nonce := nonce c + 1\<rparr>))\<rparr>"
  have h: "hash ?c' = Some (calculateHash e ?c')" by simp
  have g: "take d (calculateHash e (?c'\<lparr>nonce := nonce ?c' + k\<rparr>)) = replicate d CHR ''0''"
    using assms(2) by (simp add: calculateHash_def)
  from proofOfWork_finds [OF h g] assms(1) have "proofOfWork e d c \<noteq> None"
    by (subst proofOfWork.simps) simp
  then show ?thesis by auto
qed

lemma proofOfWork_first_nonce:
  assumes "hash c = None"
    and "take d (calculateHash e (c\<lparr>nonce := nonce c + 1\<rparr>)) = replicate d CHR ''0''"
  shows "proofOfWork e d c =
           Some (c\<lparr>nonce := nonce c + 1,
                   hash := Some (calculateHash e (c\<lparr>nonce := nonce c + 1\<rparr>))\<rparr>)"
proof -
  let ?c' = "c\<lparr>nonce := nonce c + 1,
                hash := Some (calculateHash e (c\<lparr>nonce := nonce c + 1\<rparr>))\<rparr>"
  have "proofOfWork e d c = proofOfWork e d ?c'"
    using assms(1) by (subst proofOfWork.simps) simp
  also have "\<dots> = Some ?c'"
    using assms(2) by (subst proofOfWork.simps) simp
  finally show ?thesis .
qed

subsection \<open>Sealing\<close>

lemma mineBlock_sealed:
  assumes "mineBlock e bc now miner = Some (Inr b, bc')"
  shows "pendingTransactions bc \<noteq> [] \<and> chain bc \<noteq> [] \<and>
         bc' = bc\<lparr>chain := chain bc @ [b], pendingTransactions := []\<rparr> \<and>
         proofOfWork e (difficulty bc) (newBlock bc (last (chain bc)) now miner) = Some b"
  using assms
  by (auto simp: mineBlock_def getLatestBlock_def split: if_splits option.splits)

lemma mineBlock_failed:
  assumes "mineBlock e bc now miner = Some (Inl err, bc')"
  shows "bc' = bc \<and>
         ((err = NoPendingTransactions \<and> pendingTransactions bc = []) \<or>
          (err = RuntimeTypeError \<and> chain bc = []))"
  using assms
  by (auto simp: mineBlock_def getLatestBlock_def split: if_splits option.splits)

text \<open>Sealing succeeds whenever some nonce from 1 on meets the difficulty.\<close>

lemma mineBlock_terminates:
  assumes "pendingTransactions bc \<noteq> []" and "chain bc \<noteq> []"
    and "take (difficulty bc)
           (calculateHash e ((newBlock bc (last (chain bc)) now miner)\<lparr>nonce := Suc k\<rparr>)) =
         replicate (difficulty bc) CHR ''0''"
  shows "\<exists>b. mineBlock e bc now miner =
           Some (Inr b, bc\<lparr>chain := chain bc @ [b], pendingTransactions := []\<rparr>)"
proof -
  have "hash (newBlock bc (last (chain bc)) now miner) = None"
    and "nonce (newBlock bc (last (chain bc)) now miner) = 0"
    by (simp_all add: newBlock_def)
  with assms(3) obtain b
    where "proofOfWork e (difficulty bc) (newBlock bc (last (chain bc)) now miner) = Some b"
    using proofOfWork_terminates [of "newBlock bc (last (chain bc)) now miner" "difficulty bc" e k]
    by auto
  with assms(1,2) show ?thesis
    by (auto simp: mineBlock_def getLatestBlock_def)
qed

lemma mineBlock_first_nonce:
  assumes "pendingTransactions bc \<noteq> []" and "chain bc \<noteq> []"
    and "take (difficulty bc)
           (calculateHash e ((newBlock bc (last (chain bc)) now miner)\<lparr>nonce := 1\<rparr>)) =
         replicate (difficulty bc) CHR ''0''"
  shows "mineBlock e bc now miner =
           Some (Inr (firstNonceBlock e bc now miner), sealedAtFirstNonce e bc now miner)"
proof -
  have "hash (newBlock bc (last (chain bc)) now miner) = None"
    and "nonce (newBlock bc (last (chain bc)) now miner) = 0"
    by (simp_all add: newBlock_def)
  with assms(3)
  have "proofOfWork e (difficulty bc) (newBlock bc (last (chain bc)) now miner) =
          Some (firstNonceBlock e bc now miner)"
    using proofOfWork_first_nonce
            [of "newBlock bc (last (chain bc)) now miner" "difficulty bc" e]
    by (simp add: firstNonceBlock_def)
  with assms(1,2) show ?thesis
    by (simp add: mineBlock_def getLatestBlock_def sealedAtFirstNonce_def)
qed

lemma mineBlock_result:
  assumes "mineBlock e bc now miner = Some (Inr b, bc')"
  shows "pendingTransactions bc' = [] \<and> chain bc' = chain bc @ [b] \<and>
         nodes bc' = nodes bc \<and> difficulty bc' = difficulty bc \<and>
         smartContract bc' = smartContract bc \<and>
         transactions b = pendingTransactions bc \<and> index b = length (chain bc) \<and>
         previousHash b = hash (last (chain bc)) \<and>
         hash b = Some (calculateHash e b) \<and>
         take (difficulty bc) (calculateHash e b) = replicate (difficulty bc) CHR ''0''"
proof -
  from mineBlock_sealed [OF assms]
  have bc': "bc' = bc\<lparr>chain := chain bc @ [b], pendingTransactions := []\<rparr>"
    and pow: "proofOfWork e (difficulty bc) (newBlock bc (last (chain bc)) now miner) = Some b"
    by simp_all
  from proofOfWork_result [OF pow] show ?thesis
    by (auto simp: bc' newBlock_def)
qed

subsection \<open>Invariants of the ledgers the operations produce\<close>

lemma sealedAt_append_old:
  assumes "1 \<le> i" and "i < length c"
  shows "sealedAt e d (c @ [b]) i = sealedAt e d c i"
proof -
  from assms have "i - 1 < length c" by simp
  with assms show ?thesis by (simp add: sealedAt_def nth_append)
qed

lemma sealedAt_append_new:
  assumes "c \<noteq> []"
    and "hash b = Some (calculateHash e b)"
    and "take d (calculateHash e b) = replicate d CHR ''0''"
    and "previousHash b = hash (last c)" and "index b = length c"
  shows "sealedAt e d (c @ [b]) (length c)"
  using assms by (simp add: sealedAt_def nth_append last_conv_nth)

lemma reachable_invariant:
  assumes "reachable e bc"
  shows "chain bc \<noteq> [] \<and> difficulty bc = 2 \<and>
         (\<forall>i. 1 \<le> i \<and> i < length (chain bc) \<longrightarrow> sealedAt e 2 (chain bc) i)"
  using assms
proof (induction rule: reachable.induct)
  case (constructed uid now now')
  then show ?case by (simp add: newBlockchain_def)
next
  case (registered bc now now' nodeId nodeType pk md)
  then show ?case by simp
next
  case (submitted bc uid now clock nodeId type d)
  then show ?case by simp
next
  case (mined bc now miner res bc')
  show ?case
  proof (cases res)
    case (Inl err)
    with mined.hyps(2) have "bc' = bc" using mineBlock_failed by blast
    with mined.IH show ?thesis by simp
  next
    case (Inr b)
    with mined.hyps(2) have m: "mineBlock e bc now miner = Some (Inr b, bc')" by simp
    from mined.IH have ne: "chain bc \<noteq> []" and d: "difficulty bc = 2"
      and old: "\<And>i. 1 \<le> i \<Longrightarrow> i < length (chain bc) \<Longrightarrow> sealedAt e 2 (chain bc) i"
      by simp_all
    from mineBlock_result [OF m] d
    have c': "chain bc' = chain bc @ [b]" and d': "difficulty bc' = 2"
      and new: "sealedAt e 2 (chain bc @ [b]) (length (chain bc))"
      using sealedAt_append_new [OF ne, of b e 2] by simp_all
    have "sealedAt e 2 (chain bc') i" if "1 \<le> i" and "i < length (chain bc')" for i
    proof (cases "i < length (chain bc)")
      case True
      with that old show ?thesis by (simp add: c' sealedAt_append_old)
    next
      case False
      with that have "i = length (chain bc)" by (simp add: c')
      with new show ?thesis by (simp add: c')
    qed
    with ne d' c' show ?thesis by simp
  qed
qed

subsection \<open>Chain validation\<close>

lemma isChainValid_iff:
  "isChainValid e bc \<longleftrightarrow> (\<forall>i. 1 \<le> i \<and> i < length (chain bc) \<longrightarrow> blockValidAt e (chain bc) i)"
  by (auto simp: isChainValid_def list_all_iff)

lemma sealedAt_valid: "sealedAt e d c i \<Longrightarrow> blockValidAt e c i"
  by (simp add: sealedAt_def blockValidAt_def)

lemma reachable_valid: "reachable e bc \<Longrightarrow> isChainValid e bc"
  using reachable_invariant [of e bc] by (auto simp: isChainValid_iff intro: sealedAt_valid)

lemma digest_tamper_detected:
  assumes "isChainValid e bc" and "1 \<le> i" and "i < length (chain bc)"
    and "h' \<noteq> hash (chain bc ! i)"
  shows "\<not> isChainValid e (bc\<lparr>chain := (chain bc)[i := (chain bc ! i)\<lparr>hash := h'\<rparr>]\<rparr>)"
proof -
  from assms(1-3) have "hash (chain bc ! i) = Some (calculateHash e (chain bc ! i))"
    by (auto simp: isChainValid_iff blockValidAt_def)
  with assms(3,4) have "\<not> blockValidAt e ((chain bc)[i := (chain bc ! i)\<lparr>hash := h'\<rparr>]) i"
    by (auto simp: blockValidAt_def)
  with assms(2,3) show ?thesis by (auto simp: isChainValid_iff)
qed

lemma link_tamper_detected:
  assumes "isChainValid e bc" and "1 \<le> i" and "i < length (chain bc)"
    and "p' \<noteq> previousHash (chain bc ! i)"
  shows "\<not> isChainValid e (bc\<lparr>chain := (chain bc)[i := (chain bc ! i)\<lparr>previousHash := p'\<rparr>]\<rparr>)"
proof -
  from assms(1-3) have "previousHash (chain bc ! i) = hash (chain bc ! (i - 1))"
    by (auto simp: isChainValid_iff blockValidAt_def)
  with assms(2-4)
  have "\<not> blockValidAt e ((chain bc)[i := (chain bc ! i)\<lparr>previousHash := p'\<rparr>]) i"
    by (auto simp: blockValidAt_def)
  with assms(2,3) show ?thesis by (auto simp: isChainValid_iff)
qed

lemma resealed_inner_detected:
  assumes "isChainValid e bc" and "1 \<le> i" and "Suc i < length (chain bc)"
    and "calculateHash e ((chain bc ! i)\<lparr>transactions := txs\<rparr>) \<noteq> calculateHash e (chain bc ! i)"
  shows "\<not> isChainValid e
           (bc\<lparr>chain := (chain bc)
              [i := (chain bc ! i)
                 \<lparr>transactions := txs,
                  hash := Some (calculateHash e ((chain bc ! i)\<lparr>transactions := txs\<rparr>))\<rparr>]\<rparr>)"
proof -
  from assms(1-3) have "hash (chain bc ! i) = Some (calculateHash e (chain bc ! i))"
    and "previousHash (chain bc ! Suc i) = hash (chain bc ! i)"
    by (auto simp: isChainValid_iff blockValidAt_def)
  with assms(3,4)
  have "\<not> blockValidAt e ((chain bc)
              [i := (chain bc ! i)
                 \<lparr>transactions := txs,
                  hash := Some (calculateHash e ((chain bc ! i)\<lparr>transactions := txs\<rparr>))\<rparr>])
           (Suc i)"
    by (auto simp: blockValidAt_def)
  with assms(3) show ?thesis by (auto simp: isChainValid_iff)
qed

lemma resealed_last_accepted:
  assumes "isChainValid e bc" and "1 \<le> i" and "Suc i = length (chain bc)"
  shows "isChainValid e
           (bc\<lparr>chain := (chain bc)
              [i := (chain bc ! i)
                 \<lparr>transactions := txs,
                  hash := Some (calculateHash e ((chain bc ! i)\<lparr>transactions := txs\<rparr>))\<rparr>]\<rparr>)"
proof -
  let ?b = "(chain bc ! i)
                 \<lparr>transactions := txs,
                  hash := Some (calculateHash e ((chain bc ! i)\<lparr>transactions := txs\<rparr>))\<rparr>"
  have "blockValidAt e ((chain bc)[i := ?b]) j" if "1 \<le> j" and "j < length (chain bc)" for j
  proof (cases "j = i")
    case True
    from assms have "previousHash (chain bc ! i) = hash (chain bc ! (i - 1))"
      by (auto simp: isChainValid_iff blockValidAt_def)
    with True assms(2,3) show ?thesis
      by (auto simp: blockValidAt_def calculateHash_def)
  next
    case False
    with that assms(3) have "j < i" by simp
    with that assms(1) show ?thesis
      by (auto simp: isChainValid_iff blockValidAt_def)
  qed
  then show ?thesis by (auto simp: isChainValid_iff)
qed

text \<open>The loop starts at index 1: the genesis block is only read as a predecessor.\<close>

lemma genesis_link_unchecked:
  assumes "isChainValid e bc"
  shows "isChainValid e (bc\<lparr>chain := (chain bc)[0 := (chain bc ! 0)\<lparr>previousHash := p'\<rparr>]\<rparr>)"
proof -
  have "blockValidAt e ((chain bc)[0 := (chain bc ! 0)\<lparr>previousHash := p'\<rparr>]) j"
    if "1 \<le> j" and "j < length (chain bc)" for j
  proof -
    from that assms have "blockValidAt e (chain bc) j" by (auto simp: isChainValid_iff)
    moreover from that have "chain bc \<noteq> []" by auto
    ultimately show ?thesis using that by (cases "j = 1") (auto simp: blockValidAt_def)
  qed
  then show ?thesis by (auto simp: isChainValid_iff)
qed

lemma genesis_digest_tamper_detected:
  assumes "isChainValid e bc" and "1 < length (chain bc)" and "h' \<noteq> hash (chain bc ! 0)"
  shows "\<not> isChainValid e (bc\<lparr>chain := (chain bc)[0 := (chain bc ! 0)\<lparr>hash := h'\<rparr>]\<rparr>)"
proof -
  from assms(1,2) have "previousHash (chain bc ! 1) = hash (chain bc ! 0)"
    by (auto simp: isChainValid_iff blockValidAt_def)
  moreover from assms(2) have "chain bc \<noteq> []" by auto
  ultimately have "\<not> blockValidAt e ((chain bc)[0 := (chain bc ! 0)\<lparr>hash := h'\<rparr>]) 1"
    using assms(2,3) by (auto simp: blockValidAt_def)
  with assms(2) show ?thesis by (auto simp: isChainValid_iff)
qed

lemma lone_genesis_valid:
  assumes "length (chain bc) = 1"
  shows "isChainValid e (bc\<lparr>chain := (chain bc)[0 := b]\<rparr>)"
  using assms by (simp add: isChainValid_def)

subsection \<open>Submitting a collection event\<close>

lemma executeCollectionEvent_daily:
  assumes "validateGeoFencing r (species (tdata tx)) (gps (tdata tx)) = Inr True"
    and "validateSeason r e (species (tdata tx)) (ttimestamp tx) = Inr True"
    and "objGet (dailyLimits r) (propKey (species (tdata tx))) = Own limit"
    and "toDouble limit \<noteq> Fin 0"
    and "qualityMetrics (tdata tx) = None"
  shows "executeCollectionEvent r e tx hist clock =
           (if numLe (numAdd (totalToday (todaysCollections e (farmerId (tdata tx))
                               (species (tdata tx)) hist clock))
                        (toNum (quantity (tdata tx)))) (toDouble limit)
            then Inr (collectionPassed e tx ''NOT_TESTED'')
            else Inl DailyLimitExceeded)"
  using assms by (simp add: executeCollectionEvent_def validateDailyLimit_def Let_def)

lemma includes_collection:
  "includesPermission ps (getRequiredPermission ''CollectionEvent'') \<longleftrightarrow>
   ''create_collection_event'' \<in> set ps"
  by (simp add: includesPermission_def getRequiredPermission_def objGet_def)

lemma collection_submit:
  assumes "nodes bc nodeId = Some nd" and "active nd"
    and "''create_collection_event'' \<in> set (permissions nd)"
    and "validateGeoFencing (smartContract bc) (species d) (gps d) = Inr True"
    and "validateSeason (smartContract bc) e (species d) now = Inr True"
    and "objGet (dailyLimits (smartContract bc)) (propKey (species d)) = Own limit"
    and "toDouble limit \<noteq> Fin 0"
    and "qualityMetrics d = None"
  shows "createTransaction e bc uid now clock nodeId ''CollectionEvent'' d =
           (if numLe (numAdd (totalToday (todaysCollections e (farmerId d) (species d)
                               (concat (map transactions (chain bc))) clock))
                        (toNum (quantity d))) (toDouble limit)
            then (Inr ((signedTransaction e nd uid now nodeId ''CollectionEvent'' d)
                         \<lparr>contractValidation :=
                            Some (collectionPassed e
                                    (signedTransaction e nd uid now nodeId ''CollectionEvent'' d)
                                    ''NOT_TESTED'')\<rparr>),
                  bc\<lparr>pendingTransactions := pendingTransactions bc @
                        [(signedTransaction e nd uid now nodeId ''CollectionEvent'' d)
                           \<lparr>contractValidation :=
                              Some (collectionPassed e
                                      (signedTransaction e nd uid now nodeId ''CollectionEvent'' d)
                                      ''NOT_TESTED'')\<rparr>]\<rparr>)
            else (Inl (ContractValidationFailed DailyLimitExceeded), bc))"
proof -
  let ?tx = "signedTransaction e nd uid now nodeId ''CollectionEvent'' d"
  have "executeContract e bc ''CollectionEvent'' ?tx clock =
          (if numLe (numAdd (totalToday (todaysCollections e (farmerId d) (species d)
                               (concat (map transactions (chain bc))) clock))
                        (toNum (quantity d))) (toDouble limit)
            then Inr (collectionPassed e ?tx ''NOT_TESTED'')
            else Inl DailyLimitExceeded)"
    using assms(4-8)
    by (simp add: executeContract_def getAllTransactions_def
          executeCollectionEvent_daily [where limit = limit])
  with assms(1-3) show ?thesis
    by (simp add: createTransaction_def Let_def includes_collection)
qed

lemma createTransaction_ignores_pool:
  "fst (createTransaction e (bc\<lparr>pendingTransactions := p\<rparr>) uid now clock n t d) =
   fst (createTransaction e bc uid now clock n t d)"
  by (simp add: createTransaction_def executeContract_def getAllTransactions_def Let_def
        split: option.splits sum.splits)

subsection \<open>Rounding to the nearest double\<close>

text \<open>
  \<open>bitLength n\<close> is the number of binary digits of \<open>n\<close>, so \<open>exponentOf a\<close> is
  the binary exponent of \<open>a\<close>; a number from \<open>2 ^ - 1022\<close> on has a significand
  of 53 bits over its spacing, and the numbers below share the spacing
  \<open>2 ^ - 1074\<close>.
\<close>

lemma bitsFrom_shift: "bitsFrom k n = k + bitsFrom 0 n"
proof (induction n arbitrary: k rule: less_induct)
  case (less n)
  show ?case
  proof (cases "n = 0")
    case True
    then show ?thesis by (simp add: bitsFrom.simps)
  next
    case False
    then have d: "n div 2 < n" by simp
    have "bitsFrom k n = bitsFrom (k + 1) (n div 2)"
      using False by (subst bitsFrom.simps) simp
    also have "\<dots> = (k + 1) + bitsFrom 0 (n div 2)"
      by (rule less.IH [OF d])
    finally have l: "bitsFrom k n = (k + 1) + bitsFrom 0 (n div 2)" .
    have "bitsFrom 0 n = bitsFrom (0 + 1) (n div 2)"
      using False by (subst bitsFrom.simps) simp
    also have "\<dots> = (0 + 1) + bitsFrom 0 (n div 2)"
      by (rule less.IH [OF d])
    finally show ?thesis using l by simp
  qed
qed

lemma bitLength_pos: "0 < n \<Longrightarrow> bitLength n = bitLength (n div 2) + 1"
  unfolding bitLength_def
  by (subst bitsFrom.simps, subst bitsFrom_shift) simp

lemma bitLength_0: "bitLength 0 = 0"
  by (simp add: bitLength_def bitsFrom.simps)

lemma bitLength_bounds: "0 < n \<Longrightarrow> 2 ^ (bitLength n - 1) \<le> n \<and> n < 2 ^ bitLength n"
proof (induction n rule: less_induct)
  case (less n)
  show ?case
  proof (cases "n div 2 = 0")
    case True
    then have "n = 1" using less.prems by (auto simp: div_eq_0_iff)
    then show ?thesis by (simp add: bitLength_pos bitLength_0)
  next
    case False
    then have p: "0 < n div 2" "n div 2 < n" using less.prems by auto
    from less.IH [OF p(2) p(1)]
    have ih: "2 ^ (bitLength (n div 2) - 1) \<le> n div 2" "n div 2 < 2 ^ bitLength (n div 2)"
      by simp_all
    have bl: "bitLength (n div 2) = bitLength (n div 2 div 2) + 1"
      by (rule bitLength_pos [OF p(1)])
    have "2 ^ (bitLength n - 1) = (2::nat) ^ bitLength (n div 2)"
      by (simp add: bitLength_pos [OF less.prems])
    also have "\<dots> = 2 * 2 ^ (bitLength (n div 2) - 1)"
      using bl by (cases "bitLength (n div 2)") simp_all
    also have "\<dots> \<le> 2 * (n div 2)" using ih(1) by simp
    also have "\<dots> \<le> n" by simp
    finally have lo: "2 ^ (bitLength n - 1) \<le> n" .
    have "n < 2 * (n div 2 + 1)" by presburger
    also have "\<dots> \<le> 2 * 2 ^ bitLength (n div 2)" using ih(2) by simp
    also have "\<dots> = 2 ^ bitLength n" by (simp add: bitLength_pos [OF less.prems])
    finally show ?thesis using lo by simp
  qed
qed


lemma pow2_pos: "0 < pow2 k"
  by (simp add: pow2_def)

lemma pow2_nat: "pow2 (int n) = 2 ^ n"
  by (simp add: pow2_def)

lemma pow2_neg: "pow2 (- int n) = 1 / 2 ^ n"
  by (auto simp: pow2_def)

lemma pow2_succ: "pow2 (k + 1) = 2 * pow2 k"
proof -
  consider "0 \<le> k" | "k = - 1" | "k < - 1" by linarith
  then show ?thesis
  proof cases
    case 1
    then have "nat (k + 1) = Suc (nat k)" by simp
    then show ?thesis using 1 by (simp add: pow2_def)
  next
    case 2
    then show ?thesis by (simp add: pow2_def)
  next
    case 3
    then have "nat (- k) = Suc (nat (- (k + 1)))" by simp
    then show ?thesis using 3 by (simp add: pow2_def)
  qed
qed

lemma exponentOf_bounds:
  assumes "0 < a"
  shows "pow2 (exponentOf a) \<le> a \<and> a < pow2 (exponentOf a + 1)"
proof (cases "1 \<le> a")
  case True
  define n where "n = nat \<lfloor>a\<rfloor>"
  have fl: "real n = of_int \<lfloor>a\<rfloor>" using True by (simp add: n_def)
  have n: "0 < n" "real n \<le> a" "a < real n + 1"
    using True by (simp add: n_def) (unfold fl, linarith+)
  from bitLength_bounds [OF n(1)]
  have b: "2 ^ (bitLength n - 1) \<le> n" "n < 2 ^ bitLength n" by simp_all
  have p: "0 < bitLength n" using n(1) by (simp add: bitLength_pos)
  have e: "exponentOf a = int (bitLength n - 1)"
    using True p by (simp add: exponentOf_def n_def)
  have "pow2 (exponentOf a) = real (2 ^ (bitLength n - 1))"
    by (simp add: e pow2_nat)
  also have "\<dots> \<le> real n" using b(1) by (rule of_nat_mono)
  finally have lo: "pow2 (exponentOf a) \<le> a" using n(2) by simp
  have "exponentOf a + 1 = int (bitLength n)" using e p by simp
  then have "pow2 (exponentOf a + 1) = real (2 ^ bitLength n)" by (simp add: pow2_nat)
  moreover have "n + 1 \<le> 2 ^ bitLength n" using b(2) by simp
  then have "real (n + 1) \<le> real (2 ^ bitLength n)" by (rule of_nat_mono)
  ultimately show ?thesis using lo n(3) by simp
next
  case False
  define m where "m = nat (\<lceil>1 / a\<rceil> - 1)"
  have i: "1 < 1 / a" using False assms by simp
  then have c: "2 \<le> \<lceil>1 / a\<rceil>" by linarith
  have cl: "real m = of_int \<lceil>1 / a\<rceil> - 1"
  proof -
    have "0 \<le> \<lceil>1 / a\<rceil> - 1" using c by linarith
    then have "real (nat (\<lceil>1 / a\<rceil> - 1)) = of_int (\<lceil>1 / a\<rceil> - 1)" by (rule of_nat_nat)
    then show ?thesis unfolding m_def by (simp only: of_int_diff of_int_1)
  qed
  have "0 < m" using c unfolding m_def by linarith
  moreover have "real m < 1 / a" "1 / a \<le> real m + 1" unfolding cl by linarith+
  ultimately have m: "0 < m" "real m < 1 / a" "1 / a \<le> real m + 1" by simp_all
  from bitLength_bounds [OF m(1)]
  have b: "2 ^ (bitLength m - 1) \<le> m" "m < 2 ^ bitLength m" by simp_all
  have p: "0 < bitLength m" using m(1) by (simp add: bitLength_pos)
  have e: "exponentOf a = - int (bitLength m)"
    using False by (simp add: exponentOf_def m_def)
  have "m + 1 \<le> 2 ^ bitLength m" using b(2) by simp
  then have "real (m + 1) \<le> real (2 ^ bitLength m)" by (rule of_nat_mono)
  then have "1 / a \<le> 2 ^ bitLength m" using m(3) by simp
  then have "1 \<le> 2 ^ bitLength m * a" using assms by (simp add: field_simps)
  then have lo: "pow2 (exponentOf a) \<le> a" by (simp add: e pow2_neg field_simps)
  have "exponentOf a + 1 = - int (bitLength m - 1)" using e p by simp
  then have u: "pow2 (exponentOf a + 1) = 1 / 2 ^ (bitLength m - 1)" by (simp only: pow2_neg)
  have r: "real (2 ^ (bitLength m - 1)) \<le> real m" using b(1) by (rule of_nat_mono)
  have "(2::real) ^ (bitLength m - 1) = real (2 ^ (bitLength m - 1))" by simp
  then have "2 ^ (bitLength m - 1) < 1 / a" using r m(2) by linarith
  then have "2 ^ (bitLength m - 1) * a < 1" using assms by (simp add: field_simps)
  then have "a < 1 / 2 ^ (bitLength m - 1)" by (simp add: field_simps)
  then have "a < pow2 (exponentOf a + 1)" by (simp only: u)
  then show ?thesis using lo by simp
qed

lemma roundHalfEven_near: "\<bar>of_int (roundHalfEven s) - s\<bar> \<le> 1 / 2"
  unfolding roundHalfEven_def by (simp; linarith)

lemma roundHalfEven_of_int: "roundHalfEven (of_int k) = k"
  by (simp add: roundHalfEven_def)

lemma roundTo_near:
  assumes "0 < q"
  shows "\<bar>roundTo q a - a\<bar> \<le> q / 2"
proof -
  have "roundTo q a - a = (of_int (roundHalfEven (a / q)) - a / q) * q"
    using assms by (simp add: roundTo_def field_simps)
  then have "\<bar>roundTo q a - a\<bar> = \<bar>of_int (roundHalfEven (a / q)) - a / q\<bar> * q"
    using assms by (simp add: abs_mult)
  also have "\<dots> \<le> (1 / 2) * q"
    using roundHalfEven_near [of "a / q"] assms by (intro mult_right_mono) simp_all
  finally show ?thesis by simp
qed

lemma roundTo_multiple:
  assumes "0 < q"
  shows "roundTo q (of_int k * q) = of_int k * q"
  using assms by (simp add: roundTo_def roundHalfEven_of_int)

lemma quantum_pos: "0 < quantum a"
  by (simp add: quantum_def pow2_pos)


lemma pow2_powi: "pow2 k = 2 powi k"
  by (simp add: pow2_def power_int_def field_simps)

lemma pow2_less_imp: "pow2 j < pow2 k \<Longrightarrow> j < k"
proof (rule ccontr)
  assume l: "pow2 j < pow2 k" and "\<not> j < k"
  then have "k \<le> j" by simp
  then have "(2::real) powi k \<le> 2 powi j" by (rule power_int_increasing) simp
  then show False using l by (simp add: pow2_powi)
qed

lemma pow2_plus_52: "pow2 k = 2 ^ 52 * pow2 (k - 52)"
proof -
  have "(2::real) powi (52 + (k - 52)) = 2 powi 52 * 2 powi (k - 52)"
    by (rule power_int_add) simp
  then show ?thesis by (simp add: pow2_powi)
qed

lemma quantum_normal:
  assumes "pow2 (- 1022) \<le> a"
  shows "2 ^ 52 * quantum a \<le> a \<and> a < 2 ^ 53 * quantum a"
proof -
  have a: "0 < a" using assms pow2_pos [of "- 1022"] by linarith
  from exponentOf_bounds [OF a]
  have b: "pow2 (exponentOf a) \<le> a" "a < pow2 (exponentOf a + 1)" by simp_all
  have "pow2 (- 1022) < pow2 (exponentOf a + 1)" using assms b(2) by linarith
  then have "- 1022 < exponentOf a + 1" by (rule pow2_less_imp)
  then have q: "quantum a = pow2 (exponentOf a - 52)" by (simp add: quantum_def max_def)
  have "pow2 (exponentOf a + 1) = 2 * (2 ^ 52 * pow2 (exponentOf a - 52))"
    by (simp only: pow2_succ pow2_plus_52 [of "exponentOf a"])
  then show ?thesis using b pow2_plus_52 [of "exponentOf a"] by (simp add: q)
qed

lemma quantum_subnormal:
  assumes "0 < a" and "a < pow2 (- 1022)"
  shows "quantum a = pow2 (- 1074)"
proof -
  from exponentOf_bounds [OF assms(1)]
  have "pow2 (exponentOf a) < pow2 (- 1022)" using assms(2) by linarith
  then have "exponentOf a < - 1022" by (rule pow2_less_imp)
  then show ?thesis by (simp add: quantum_def max_def)
qed

text \<open>
  A finite result of the rounding is a whole multiple of the spacing at the
  argument and lies within half a spacing of it.
\<close>

lemma toDouble_nearest:
  assumes "toDouble x = Fin y"
  shows "\<bar>y - x\<bar> \<le> quantum \<bar>x\<bar> / 2 \<and> (\<exists>k. y = of_int k * quantum \<bar>x\<bar>)"
proof (cases "x = 0")
  case True
  then have "y = 0" using assms by (simp add: toDouble_def)
  then show ?thesis using True quantum_pos [of 0] by (auto intro: exI [of _ 0])
next
  case False
  define q where "q = quantum \<bar>x\<bar>"
  define r where "r = roundTo q \<bar>x\<bar>"
  have n: "\<bar>r - \<bar>x\<bar>\<bar> \<le> q / 2"
    unfolding r_def q_def by (rule roundTo_near [OF quantum_pos])
  have k: "r = of_int (roundHalfEven (\<bar>x\<bar> / q)) * q" by (simp add: r_def roundTo_def)
  have y: "y = (if 0 < x then r else - r)"
    using assms False by (simp add: toDouble_def ofMagnitude_def r_def q_def split: if_splits)
  show ?thesis
  proof (cases "0 < x")
    case True
    then have "y - x = r - \<bar>x\<bar>" using y by simp
    then have "\<bar>y - x\<bar> \<le> q / 2" using n by simp
    moreover have "y = of_int (roundHalfEven (\<bar>x\<bar> / q)) * q" using y True k by simp
    ultimately show ?thesis unfolding q_def by blast
  next
    case neg: False
    then have "y - x = - (r - \<bar>x\<bar>)" using y by simp
    then have "\<bar>y - x\<bar> = \<bar>r - \<bar>x\<bar>\<bar>" by (simp only: abs_minus_cancel)
    then have "\<bar>y - x\<bar> \<le> q / 2" using n by simp
    moreover have "y = of_int (- roundHalfEven (\<bar>x\<bar> / q)) * q" using y neg k by simp
    ultimately show ?thesis unfolding q_def by blast
  qed
qed

text \<open>A multiple of the spacing below \<open>2 ^ 1024\<close> is a double: the rounding keeps it.\<close>

lemma toDouble_exact:
  assumes "0 < a" and "a = of_int k * quantum a" and "a < pow2 1024"
  shows "toDouble a = Fin a" and "toDouble (- a) = Fin (- a)"
proof -
  have "roundTo (quantum a) (of_int k * quantum a) = of_int k * quantum a"
    by (rule roundTo_multiple [OF quantum_pos])
  then have r: "roundTo (quantum a) a = a" using assms(2) by simp
  show "toDouble a = Fin a" using assms(1,3) by (simp add: toDouble_def ofMagnitude_def r)
  show "toDouble (- a) = Fin (- a)" using assms(1,3) by (simp add: toDouble_def ofMagnitude_def r)
qed

subsection \<open>Sums of doubles\<close>

lemma bitsFrom_0: "bitsFrom k 0 = k"
  by (subst bitsFrom.simps) simp

lemma bitsFrom_1: "bitsFrom k 1 = k + 1" "bitsFrom k (Suc 0) = k + 1"
  by (subst bitsFrom.simps, simp add: bitsFrom_0)+

lemma bitsFrom_numeral: "bitsFrom k (numeral m) = bitsFrom (k + 1) (numeral m div 2)"
  by (subst bitsFrom.simps) simp

lemmas double_eval =
  toDouble_def ofMagnitude_def roundTo_def quantum_def exponentOf_def pow2_def
  roundHalfEven_def bitLength_def bitsFrom_0 bitsFrom_1 bitsFrom_numeral toNum_def

text \<open>
  The doubles nearest to \<open>8.3\<close>, \<open>0.3\<close> and \<open>2 ^ 53 + 1\<close> (a tie, rounded to
  the even significand), the smallest subnormal number, and the overflow of
  \<open>10 ^ 308 + 10 ^ 308\<close>.
\<close>

lemma toDouble_examples:
  "toDouble (83 / 10) = Fin (2336242306698445 / 281474976710656)"
  "toDouble (3 / 10) = Fin (5404319552844595 / 18014398509481984)"
  "toDouble (- (1 / 3)) = Fin (- (6004799503160661 / 18014398509481984))"
  "toDouble 9007199254740993 = Fin 9007199254740992"
  "toDouble (1 / 2 ^ 1074) = Fin (1 / 2 ^ 1074)"
  "toDouble (1 / 2 ^ 1075) = Fin 0"
  by (simp_all add: double_eval)

lemma numAdd_overflow: "numAdd (toDouble (10 ^ 308)) (toDouble (10 ^ 308)) = PosInf"
  by (simp add: double_eval)

text \<open>
  In doubles \<open>0.1 + 0.2\<close> is \<open>0.30000000000000004\<close>, \<open>8.3 + 24.1 + 17.6\<close> is
  \<open>50.00000000000001\<close>, above a ceiling of 50, and \<open>50 + 2 ^ - 50\<close> is 50.
\<close>

lemma numAdd_examples:
  "numAdd (toDouble (1 / 10)) (toDouble (2 / 10)) = Fin (1351079888211149 / 4503599627370496)"
  "numAdd (numAdd (toDouble (83 / 10)) (toDouble (241 / 10))) (toDouble (176 / 10)) =
     Fin (7036874417766401 / 140737488355328)"
  "\<not> numLe (numAdd (numAdd (toDouble (83 / 10)) (toDouble (241 / 10))) (toDouble (176 / 10)))
          (toDouble 50)"
  "numAdd (toDouble 50) (toDouble (1 / 2 ^ 50)) = Fin 50"
  "numLe (numAdd (toDouble 50) (toDouble (1 / 2 ^ 50))) (toDouble 50)"
  by (simp_all add: double_eval)

lemma toDouble_50: "toDouble 50 = Fin 50"
  by (simp add: double_eval)

text \<open>
  The daily sum over a history of 8.3 kg and 24.1 kg refuses a further 17.6 kg
  under a ceiling of 50 kg, as the addition of the source does.
\<close>

lemma totalToday_rounds:
  assumes "quantity (tdata a) = Some (83 / 10)" and "quantity (tdata b) = Some (241 / 10)"
  shows "\<not> numLe (numAdd (totalToday [a, b]) (toNum (Some (176 / 10)))) (toDouble 50)"
  using assms by (simp add: totalToday_def double_eval)

subsection \<open>The example ledgers\<close>

lemma geo_collection:
  "validateGeoFencing defaultRules (species (collection q)) (gps (collection q)) = Inr True"
  by (simp add: validateGeoFencing_def defaultRules_def objGet_def propKey_def inBounds_def
        jsGe_def jsLe_def collection_def)

lemma season_day1:
  "validateSeason defaultRules stubEnv (species (collection q)) day1 = Inr True"
  by (simp add: validateSeason_def defaultRules_def objGet_def propKey_def stubEnv_def
        nodeEnv_def utcMonth_def monthOfDays_def day1_def Let_def collection_def)

lemma limit_collection:
  "objGet (dailyLimits defaultRules) (propKey (species (collection q))) = Own 50"
  by (simp add: defaultRules_def objGet_def propKey_def collection_def)

lemma farmer_submits:
  assumes "nodes bc ''FARMER001'' = Some farmerNode" and "smartContract bc = defaultRules"
  shows "createTransaction stubEnv bc uid day1 day1 ''FARMER001'' ''CollectionEvent''
           (collection q) =
           (if numLe (numAdd (totalToday (todaysCollections stubEnv (Some ''FARMER001'')
                               (Some ''ashwagandha'') (concat (map transactions (chain bc))) day1))
                        (toDouble q)) (Fin 50)
            then (Inr (harvest uid q),
                  bc\<lparr>pendingTransactions := pendingTransactions bc @ [harvest uid q]\<rparr>)
            else (Inl (ContractValidationFailed DailyLimitExceeded), bc))"
proof -
  have "active farmerNode" "''create_collection_event'' \<in> set (permissions farmerNode)"
    "qualityMetrics (collection q) = None" "toDouble 50 \<noteq> Fin 0"
    by (simp_all add: farmerNode_def collection_def toDouble_50)
  from collection_submit [OF assms(1) this(1,2), of "collection q" stubEnv day1 50 uid day1]
    this(3,4) assms(2) geo_collection season_day1 limit_collection
  show ?thesis by (simp add: harvest_def toDouble_50) (simp add: collection_def toNum_def)
qed

lemma genesis_not_collected [simp]:
  "todaysCollections e f s (transactions (createGenesisBlock e' uid a b) @ txs) c =
   todaysCollections e f s txs c"
  "todaysCollections e f s (transactions (createGenesisBlock e' uid a b)) c = []"
  by (simp_all add: todaysCollections_def createGenesisBlock_def)

lemma harvest_collected [simp]:
  "todaysCollections stubEnv (Some ''FARMER001'') (Some ''ashwagandha'') (harvest uid q # txs) day1 =
   harvest uid q # todaysCollections stubEnv (Some ''FARMER001'') (Some ''ashwagandha'') txs day1"
  by (simp add: todaysCollections_def harvest_def collection_def)

lemma todaysCollections_Nil [simp]: "todaysCollections e f s [] c = []"
  by (simp add: todaysCollections_def)

lemma harvest_quantity [simp]: "quantity (tdata (harvest uid q)) = Some q"
  by (simp add: harvest_def collection_def)

lemma harvest_tid [simp]: "tid (harvest uid q) = uid"
  by (simp add: harvest_def)

lemma ledgerA_facts [simp]:
  "chain ledgerA = [createGenesisBlock stubEnv ''uuid-0'' day1 day1]"
  "pendingTransactions ledgerA = []"
  "nodes ledgerA ''FARMER001'' = Some farmerNode"
  "smartContract ledgerA = defaultRules"
  "difficulty ledgerA = 2"
  by (simp_all add: ledgerA_def newBlockchain_def registerNode_def allowedTypes_def
        farmerNode_def getNodePermissions_def objGet_def)

lemma ledgerB_eq: "ledgerB = ledgerA\<lparr>pendingTransactions := [harvest ''uuid-1'' 30]\<rparr>"
  by (simp add: ledgerB_def farmer_submits totalToday_def double_eval)

lemma ledgerB_facts [simp]:
  "chain ledgerB = [createGenesisBlock stubEnv ''uuid-0'' day1 day1]"
  "pendingTransactions ledgerB = [harvest ''uuid-1'' 30]"
  "nodes ledgerB ''FARMER001'' = Some farmerNode"
  "smartContract ledgerB = defaultRules"
  "difficulty ledgerB = 2"
  by (simp_all add: ledgerB_eq)

lemma stub_meets_difficulty: "take 2 (calculateHash stubEnv b) = replicate 2 CHR ''0''"
  by (simp add: calculateHash_def calculateHashOf_def stubEnv_def nodeEnv_def numeral_2_eq_2)

lemma ledgerB_sealed:
  "mineBlock stubEnv ledgerB day1 ''MINER'' =
     Some (Inr (firstNonceBlock stubEnv ledgerB day1 ''MINER''), ledgerC)"
  unfolding ledgerC_def
  by (rule mineBlock_first_nonce) (simp_all add: stub_meets_difficulty)

lemma ledgerC_facts [simp]:
  "chain ledgerC = [createGenesisBlock stubEnv ''uuid-0'' day1 day1,
                    firstNonceBlock stubEnv ledgerB day1 ''MINER'']"
  "pendingTransactions ledgerC = []"
  "nodes ledgerC ''FARMER001'' = Some farmerNode"
  "smartContract ledgerC = defaultRules"
  "difficulty ledgerC = 2"
  by (simp_all add: ledgerC_def sealedAtFirstNonce_def)

lemma firstNonceBlock_transactions [simp]:
  "transactions (firstNonceBlock e bc now miner) = pendingTransactions bc"
  by (simp add: firstNonceBlock_def newBlock_def)

lemma ledgerD_eq: "ledgerD = ledgerC\<lparr>pendingTransactions := [harvest ''uuid-2'' 15]\<rparr>"
  by (simp add: ledgerD_def farmer_submits totalToday_def double_eval)

lemma ledgerD_facts [simp]:
  "chain ledgerD = [createGenesisBlock stubEnv ''uuid-0'' day1 day1,
                    firstNonceBlock stubEnv ledgerB day1 ''MINER'']"
  "pendingTransactions ledgerD = [harvest ''uuid-2'' 15]"
  "nodes ledgerD ''FARMER001'' = Some farmerNode"
  "smartContract ledgerD = defaultRules"
  "difficulty ledgerD = 2"
  by (simp_all add: ledgerD_eq)

lemma ledgerD_sealed:
  "mineBlock stubEnv ledgerD day1 ''MINER'' =
     Some (Inr (firstNonceBlock stubEnv ledgerD day1 ''MINER''), ledgerE)"
  unfolding ledgerE_def
  by (rule mineBlock_first_nonce) (simp_all add: stub_meets_difficulty)

lemma ledgerE_facts [simp]:
  "chain ledgerE = [createGenesisBlock stubEnv ''uuid-0'' day1 day1,
                    firstNonceBlock stubEnv ledgerB day1 ''MINER'',
                    firstNonceBlock stubEnv ledgerD day1 ''MINER'']"
  "pendingTransactions ledgerE = []"
  by (simp_all add: ledgerE_def sealedAtFirstNonce_def)

lemma reachable_ledgerA: "reachable stubEnv ledgerA"
  unfolding ledgerA_def by (rule reachable.registered) (rule reachable.constructed)

lemma reachable_ledgerB: "reachable stubEnv ledgerB"
  unfolding ledgerB_def by (rule reachable.submitted) (rule reachable_ledgerA)

lemma reachable_ledgerC: "reachable stubEnv ledgerC"
  by (rule reachable.mined [OF reachable_ledgerB ledgerB_sealed])

lemma reachable_ledgerD: "reachable stubEnv ledgerD"
  unfolding ledgerD_def by (rule reachable.submitted) (rule reachable_ledgerC)

lemma reachable_ledgerE: "reachable stubEnv ledgerE"
  by (rule reachable.mined [OF reachable_ledgerD ledgerD_sealed])

section \<open>The specification against the code\<close>

subsection \<open>The daily ceiling and the pending pool\<close>

text \<open>
  C1 at the failing input. With 30 kg of the farmer still in the pending pool,
  a second submission of 25 kg for the same farmer, species and day is
  admitted: the pool then holds both events, 55 kg against a ceiling of 50 kg.
  The history handed to the rules holds the sealed events only. Once the 30 kg
  are sealed into a block the same 25 kg are refused with the daily-limit
  violation, and 15 kg are admitted.
\<close>

theorem pooled_harvest_not_counted:
  "pendingTransactions ledgerB = [harvest ''uuid-1'' 30] \<and>
   quantity (tdata (harvest ''uuid-1'' 30)) = Some 30 \<and>
   getAllTransactions ledgerB = transactions (createGenesisBlock stubEnv ''uuid-0'' day1 day1) \<and>
   createTransaction stubEnv ledgerB ''uuid-2'' day1 day1 ''FARMER001'' ''CollectionEvent''
     (collection 25) =
     (Inr (harvest ''uuid-2'' 25),
      ledgerB\<lparr>pendingTransactions := [harvest ''uuid-1'' 30, harvest ''uuid-2'' 25]\<rparr>) \<and>
   getAllTransactions ledgerC =
     transactions (createGenesisBlock stubEnv ''uuid-0'' day1 day1) @ [harvest ''uuid-1'' 30] \<and>
   createTransaction stubEnv ledgerC ''uuid-3'' day1 day1 ''FARMER001'' ''CollectionEvent''
     (collection 25) = (Inl (ContractValidationFailed DailyLimitExceeded), ledgerC) \<and>
   createTransaction stubEnv ledgerC ''uuid-2'' day1 day1 ''FARMER001'' ''CollectionEvent''
     (collection 15) =
     (Inr (harvest ''uuid-2'' 15), ledgerC\<lparr>pendingTransactions := [harvest ''uuid-2'' 15]\<rparr>)"
  by (simp add: farmer_submits getAllTransactions_def totalToday_def double_eval)

subsection \<open>Chain validation and tampering\<close>

lemma ledgerC_valid: "isChainValid stubEnv ledgerC"
  by (rule reachable_valid [OF reachable_ledgerC])

text \<open>
  The last sealed block of \<open>ledgerC\<close> holds the 30 kg harvest. Rewriting the
  payload of that event and recomputing the digest of the block changes the
  stored digest, and validation still returns true. So it does after the
  \<^verbatim>\<open>previousHash\<close> of the genesis block is replaced, and after the digest of
  the genesis block of \<open>ledgerA\<close>, which has no other block, is removed.
\<close>

theorem resealed_last_block_validates:
  "length (chain ledgerC) = 2 \<and>
   transactions (chain ledgerC ! 1) = [harvest ''uuid-1'' 30] \<and>
   isChainValid stubEnv ledgerC \<and>
   isChainValid stubEnv
     (ledgerC\<lparr>chain := (chain ledgerC)
        [1 := (chain ledgerC ! 1)
           \<lparr>transactions := [forged],
            hash := Some (calculateHash stubEnv
                            ((chain ledgerC ! 1)\<lparr>transactions := [forged]\<rparr>))\<rparr>]\<rparr>) \<and>
   previousHash (chain ledgerC ! 0) = Some ''0'' \<and>
   isChainValid stubEnv
     (ledgerC\<lparr>chain := (chain ledgerC)
        [0 := (chain ledgerC ! 0)\<lparr>previousHash := Some ''tampered''\<rparr>]\<rparr>) \<and>
   length (chain ledgerA) = 1 \<and> hash (chain ledgerA ! 0) \<noteq> None \<and>
   isChainValid stubEnv
     (ledgerA\<lparr>chain := (chain ledgerA)[0 := (chain ledgerA ! 0)\<lparr>hash := None\<rparr>]\<rparr>)"
proof -
  have "isChainValid stubEnv
     (ledgerC\<lparr>chain := (chain ledgerC)
        [1 := (chain ledgerC ! 1)
           \<lparr>transactions := [forged],
            hash := Some (calculateHash stubEnv
                            ((chain ledgerC ! 1)\<lparr>transactions := [forged]\<rparr>))\<rparr>]\<rparr>)"
    by (rule resealed_last_accepted [OF ledgerC_valid]) simp_all
  moreover have "isChainValid stubEnv
     (ledgerC\<lparr>chain := (chain ledgerC)
        [0 := (chain ledgerC ! 0)\<lparr>previousHash := Some ''tampered''\<rparr>]\<rparr>)"
    by (rule genesis_link_unchecked [OF ledgerC_valid])
  moreover have "isChainValid stubEnv
     (ledgerA\<lparr>chain := (chain ledgerA)[0 := (chain ledgerA ! 0)\<lparr>hash := None\<rparr>]\<rparr>)"
    by (rule lone_genesis_valid) simp
  moreover have "previousHash (chain ledgerC ! 0) = Some ''0''"
    "hash (chain ledgerA ! 0) \<noteq> None"
    by (simp_all add: createGenesisBlock_def)
  ultimately show ?thesis using ledgerC_valid by simp
qed

text \<open>
  C2, as the code has it. On every ledger the operations produce,
  \<^verbatim>\<open>isChainValid\<close> returns true. When the chain has a block after genesis:
  storing another digest in any block, or another \<^verbatim>\<open>previousHash\<close> in a block
  after genesis, makes validation return false; replacing the events of a block
  after genesis and recomputing its digest makes validation return false when a
  later block exists and the recomputed digest differs from the old one, and
  leaves it true for the last block of the chain. The \<^verbatim>\<open>previousHash\<close> of the
  genesis block is never checked.
\<close>

theorem validation_detects_tampering:
  assumes "reachable e bc" and "1 \<le> i" and "i < length (chain bc)"
  shows "isChainValid e bc \<and>
         (\<forall>h'. h' \<noteq> hash (chain bc ! i) \<longrightarrow>
            \<not> isChainValid e (bc\<lparr>chain := (chain bc)[i := (chain bc ! i)\<lparr>hash := h'\<rparr>]\<rparr>)) \<and>
         (\<forall>h'. h' \<noteq> hash (chain bc ! 0) \<longrightarrow>
            \<not> isChainValid e (bc\<lparr>chain := (chain bc)[0 := (chain bc ! 0)\<lparr>hash := h'\<rparr>]\<rparr>)) \<and>
         (\<forall>p'. p' \<noteq> previousHash (chain bc ! i) \<longrightarrow>
            \<not> isChainValid e
                (bc\<lparr>chain := (chain bc)[i := (chain bc ! i)\<lparr>previousHash := p'\<rparr>]\<rparr>)) \<and>
         (\<forall>p'. isChainValid e
                (bc\<lparr>chain := (chain bc)[0 := (chain bc ! 0)\<lparr>previousHash := p'\<rparr>]\<rparr>)) \<and>
         (\<forall>txs. Suc i < length (chain bc) \<longrightarrow>
            calculateHash e ((chain bc ! i)\<lparr>transactions := txs\<rparr>) \<noteq>
              calculateHash e (chain bc ! i) \<longrightarrow>
            \<not> isChainValid e
                (bc\<lparr>chain := (chain bc)
                   [i := (chain bc ! i)
                      \<lparr>transactions := txs,
                       hash := Some (calculateHash e
                                       ((chain bc ! i)\<lparr>transactions := txs\<rparr>))\<rparr>]\<rparr>)) \<and>
         (\<forall>txs. Suc i = length (chain bc) \<longrightarrow>
            isChainValid e
              (bc\<lparr>chain := (chain bc)
                 [i := (chain bc ! i)
                    \<lparr>transactions := txs,
                     hash := Some (calculateHash e
                                     ((chain bc ! i)\<lparr>transactions := txs\<rparr>))\<rparr>]\<rparr>))"
proof -
  have v: "isChainValid e bc" by (rule reachable_valid [OF assms(1)])
  from assms(2,3) have l: "1 < length (chain bc)" by simp
  show ?thesis
    using v digest_tamper_detected [OF v assms(2,3)] link_tamper_detected [OF v assms(2,3)]
      resealed_inner_detected [OF v assms(2)] resealed_last_accepted [OF v assms(2)]
      genesis_digest_tamper_detected [OF v l] genesis_link_unchecked [OF v]
    by blast
qed

lemma showNat_day1_1: "showNat (Suc day1) = ''1734256800001''"
  by (simp add: day1_def showNat.simps digit_def)

lemma forged_digest_differs:
  "calculateHash stubEnv ((chain ledgerE ! 1)\<lparr>transactions := [forged]\<rparr>) \<noteq>
   calculateHash stubEnv (chain ledgerE ! 1)"
  by (simp add: calculateHash_def calculateHashOf_def stubEnv_def nodeEnv_def firstNonceBlock_def
        newBlock_def txsJson_def txJson_def forged_def dataJson_def optField_def quoted_def
        harvest_def collection_def showNat_day1_1)

theorem validation_detects_tampering_witness:
  "reachable stubEnv ledgerE \<and> length (chain ledgerE) = 3 \<and>
   isChainValid stubEnv ledgerE \<and>
   None \<noteq> hash (chain ledgerE ! 1) \<and>
   \<not> isChainValid stubEnv
       (ledgerE\<lparr>chain := (chain ledgerE)[1 := (chain ledgerE ! 1)\<lparr>hash := None\<rparr>]\<rparr>) \<and>
   None \<noteq> hash (chain ledgerE ! 0) \<and>
   \<not> isChainValid stubEnv
       (ledgerE\<lparr>chain := (chain ledgerE)[0 := (chain ledgerE ! 0)\<lparr>hash := None\<rparr>]\<rparr>) \<and>
   None \<noteq> previousHash (chain ledgerE ! 1) \<and>
   \<not> isChainValid stubEnv
       (ledgerE\<lparr>chain := (chain ledgerE)[1 := (chain ledgerE ! 1)\<lparr>previousHash := None\<rparr>]\<rparr>) \<and>
   isChainValid stubEnv
       (ledgerE\<lparr>chain := (chain ledgerE)[0 := (chain ledgerE ! 0)\<lparr>previousHash := None\<rparr>]\<rparr>) \<and>
   calculateHash stubEnv ((chain ledgerE ! 1)\<lparr>transactions := [forged]\<rparr>) \<noteq>
     calculateHash stubEnv (chain ledgerE ! 1) \<and>
   \<not> isChainValid stubEnv
       (ledgerE\<lparr>chain := (chain ledgerE)
          [1 := (chain ledgerE ! 1)
             \<lparr>transactions := [forged],
              hash := Some (calculateHash stubEnv
                              ((chain ledgerE ! 1)\<lparr>transactions := [forged]\<rparr>))\<rparr>]\<rparr>) \<and>
   isChainValid stubEnv
     (ledgerE\<lparr>chain := (chain ledgerE)
        [2 := (chain ledgerE ! 2)
           \<lparr>transactions := [forged],
            hash := Some (calculateHash stubEnv
                            ((chain ledgerE ! 2)\<lparr>transactions := [forged]\<rparr>))\<rparr>]\<rparr>)"
proof -
  have one: "(1::nat) \<le> 1" "1 < length (chain ledgerE)" by simp_all
  have two: "(1::nat) \<le> 2" "2 < length (chain ledgerE)" by simp_all
  have h: "None \<noteq> hash (chain ledgerE ! 1)" "None \<noteq> previousHash (chain ledgerE ! 1)"
    "None \<noteq> hash (chain ledgerE ! 0)"
    by (simp_all add: firstNonceBlock_def newBlock_def createGenesisBlock_def)
  have s: "Suc 1 < length (chain ledgerE)" "Suc 2 = length (chain ledgerE)" by simp_all
  from validation_detects_tampering [OF reachable_ledgerE one]
    validation_detects_tampering [OF reachable_ledgerE two]
    h s forged_digest_differs reachable_ledgerE
  show ?thesis by simp
qed

subsection \<open>Difficulty and linkage of the blocks\<close>

lemma replicate_numeral: "replicate (numeral k) x = x # replicate (pred_numeral k) x"
  by (simp add: numeral_eq_Suc)

lemma schedule_numeral:
  "schedule (numeral k) ws =
     schedule (pred_numeral k)
       (add32 (add32 (ssig1 (ws ! 1)) (ws ! 6)) (add32 (ssig0 (ws ! 14)) (ws ! 15)) # ws)"
  by (simp add: numeral_eq_Suc)

lemmas sha256_eval =
  sha256_def pad_def Let_def upt_rec replicate_numeral be32_def schedule_numeral
  ssig0_def ssig1_def bsig0_def bsig1_def ch_def maj_def not32_def rotr_def add32_def
  compress_def rnd_def K256_def H256_def hex32_def hexdigit_def

text \<open>The test vector of the standard for the message \<^verbatim>\<open>abc\<close>.\<close>

lemma sha256_abc:
  "sha256 ''abc'' = ''ba7816bf8f01cfea414140de5dae2223b00361a396177a9cb410ff61f20015ad''"
  by (simp add: sha256_eval)

lemma sha256_of_empty_block:
  "sha256 ''0[]0'' = ''32369d15916932bd1ade51c0cae9f32f5ded2cccd29d81d7eec27066c813e39d''"
  by (simp add: sha256_eval)

text \<open>December, July and January, counted from 0 as \<^verbatim>\<open>getMonth()\<close> does.\<close>

lemma utcMonth_examples:
  "utcMonth 1734256800000 = 11" "utcMonth 1721001600000 = 6" "utcMonth 0 = 0"
  by (simp_all add: utcMonth_def monthOfDays_def Let_def)

lemma genesis_digest_input:
  "calculateHashOf nodeEnv None None None None None = sha256 ''0[]0''"
  by (simp add: calculateHashOf_def nodeEnv_def txsJson_def showNat.simps digit_def)

text \<open>
  The digest of the genesis block is the SHA-256 digest of the string
  \<^verbatim>\<open>0[]0\<close>; it starts with \<^verbatim>\<open>32\<close>, not with two zeros.
\<close>

theorem genesis_digest_not_mined:
  "reachable nodeEnv (newBlockchain nodeEnv ''uuid-0'' day1 day1) \<and>
   difficulty (newBlockchain nodeEnv ''uuid-0'' day1 day1) = 2 \<and>
   hash (chain (newBlockchain nodeEnv ''uuid-0'' day1 day1) ! 0) =
     Some ''32369d15916932bd1ade51c0cae9f32f5ded2cccd29d81d7eec27066c813e39d'' \<and>
   map_option (take 2) (hash (chain (newBlockchain nodeEnv ''uuid-0'' day1 day1) ! 0)) \<noteq>
     Some ''00''"
proof -
  have "hash (chain (newBlockchain nodeEnv ''uuid-0'' day1 day1) ! 0) =
     Some ''32369d15916932bd1ade51c0cae9f32f5ded2cccd29d81d7eec27066c813e39d''"
    by (simp add: newBlockchain_def createGenesisBlock_def genesis_digest_input
          sha256_of_empty_block)
  moreover have "reachable nodeEnv (newBlockchain nodeEnv ''uuid-0'' day1 day1)"
    by (rule reachable.constructed)
  ultimately show ?thesis by (simp add: newBlockchain_def)
qed

text \<open>
  C3, as the code has it. On every ledger the operations produce the difficulty
  is 2, and every block after genesis has a stored digest that starts with two
  zero characters and a \<^verbatim>\<open>previousHash\<close> equal to the digest stored in the
  block before it. The genesis block is not mined.
\<close>

theorem sealed_blocks_meet_difficulty:
  assumes "reachable e bc" and "1 \<le> i" and "i < length (chain bc)"
  shows "difficulty bc = 2 \<and>
         map_option (take 2) (hash (chain bc ! i)) = Some ''00'' \<and>
         previousHash (chain bc ! i) = hash (chain bc ! (i - 1))"
proof -
  from reachable_invariant [OF assms(1)] assms(2,3)
  have "difficulty bc = 2" and "sealedAt e 2 (chain bc) i" by simp_all
  then show ?thesis by (simp add: sealedAt_def numeral_2_eq_2)
qed

theorem sealed_blocks_meet_difficulty_witness:
  "reachable stubEnv ledgerC \<and> (1::nat) \<le> 1 \<and> 1 < length (chain ledgerC) \<and>
   difficulty ledgerC = 2 \<and>
   map_option (take 2) (hash (chain ledgerC ! 1)) = Some ''00'' \<and>
   previousHash (chain ledgerC ! 1) = hash (chain ledgerC ! (1 - 1))"
proof -
  have h: "(1::nat) \<le> 1" "1 < length (chain ledgerC)" by simp_all
  from sealed_blocks_meet_difficulty [OF reachable_ledgerC h] reachable_ledgerC h
  show ?thesis by simp
qed

subsection \<open>Sealing drains the pool\<close>



subsection \<open>Registering an id twice\<close>

text \<open>
  The farmer of \<open>ledgerA\<close> is registered again under the same id as a regulator:
  the call succeeds and the stored node has the new role and capabilities.
\<close>

theorem reregistration_overwrites:
  "nodes ledgerA ''FARMER001'' = Some farmerNode \<and> ntype farmerNode = ''farmer'' \<and>
   fst (registerNode ledgerA day1 day1 ''FARMER001'' ''regulator'' ''PK2'' []) =
     Inr (True, ''FARMER001'', day1) \<and>
   map_option ntype
     (nodes (snd (registerNode ledgerA day1 day1 ''FARMER001'' ''regulator'' ''PK2'' []))
        ''FARMER001'') = Some ''regulator'' \<and>
   map_option permissions
     (nodes (snd (registerNode ledgerA day1 day1 ''FARMER001'' ''regulator'' ''PK2'' []))
        ''FARMER001'') =
     Some [''read_all_data'', ''create_compliance_report'', ''flag_violations'']"
  by (simp add: registerNode_def allowedTypes_def getNodePermissions_def objGet_def
        farmerNode_def)

text \<open>
  C5, as the code has it. Registering an id that is already present, with a role
  of the fixed set, succeeds: the node stored under the id is replaced by a new
  node with the given role, key and metadata, the capabilities of the role and
  the active flag set. No other entry of the registry, and nothing else of the
  ledger, changes.
\<close>

theorem reregistration_replaces_node:
  assumes "nodeType \<in> set allowedTypes" and "nodes bc nodeId = Some old"
  shows "registerNode bc now now' nodeId nodeType pk md =
           (Inr (True, nodeId, now'),
            bc\<lparr>nodes := (nodes bc)(nodeId \<mapsto>
                  \<lparr>nid = nodeId, ntype = nodeType, publicKey = pk, metadata = md,
                   registeredAt = now, active = True,
                   permissions = getNodePermissions nodeType\<rparr>)\<rparr>)"
  using assms by (simp add: registerNode_def)

theorem reregistration_replaces_node_witness:
  "''regulator'' \<in> set allowedTypes \<and> nodes ledgerA ''FARMER001'' = Some farmerNode \<and>
   registerNode ledgerA day1 day1 ''FARMER001'' ''regulator'' ''PK2'' [] =
     (Inr (True, ''FARMER001'', day1),
      ledgerA\<lparr>nodes := (nodes ledgerA)(''FARMER001'' \<mapsto>
         \<lparr>nid = ''FARMER001'', ntype = ''regulator'', publicKey = ''PK2'', metadata = [],
          registeredAt = day1, active = True,
          permissions = getNodePermissions ''regulator''\<rparr>)\<rparr>)"
proof -
  have h: "''regulator'' \<in> set allowedTypes" "nodes ledgerA ''FARMER001'' = Some farmerNode"
    by (simp_all add: allowedTypes_def)
  from reregistration_replaces_node [OF h] h show ?thesis by simp
qed

subsection \<open>Failing operations\<close>

lemma getTransactionById_fresh:
  "uid \<notin> tid ` set (getAllTransactions bc) \<Longrightarrow> getTransactionById bc uid = None"
  by (auto simp: getTransactionById_def find_None_iff)

text \<open>
  C6. A submission that fails, for whatever reason, leaves the ledger as it was
  (pool, chain and registry), and the id it would have given to the event, if
  not the id of a sealed event already, is not found afterwards. Sealing with an
  empty pool fails with \<^verbatim>\<open>No pending transactions to mine\<close>, and a failed
  sealing leaves the ledger as it was; so does a failed registration.
\<close>

theorem failed_operations_change_nothing:
  "(fst (createTransaction e bc uid now clock nodeId type d) = Inl err \<longrightarrow>
      snd (createTransaction e bc uid now clock nodeId type d) = bc \<and>
      (uid \<notin> tid ` set (getAllTransactions bc) \<longrightarrow>
         getTransactionById (snd (createTransaction e bc uid now clock nodeId type d)) uid =
           None)) \<and>
   (pendingTransactions bc = [] \<longrightarrow>
      mineBlock e bc now' miner = Some (Inl NoPendingTransactions, bc)) \<and>
   (mineBlock e bc now' miner = Some (Inl err', bc') \<longrightarrow> bc' = bc) \<and>
   (fst (registerNode bc now now' nodeId nodeType pk md) = Inl err'' \<longrightarrow>
      snd (registerNode bc now now' nodeId nodeType pk md) = bc)"
  using createTransaction_rejected [of e bc uid now clock nodeId type d err]
    getTransactionById_fresh [of uid bc] mineBlock_failed [of e bc now' miner err' bc']
  by (auto simp: mineBlock_def registerNode_def split: if_splits)

theorem failed_operations_change_nothing_witness:
  "fst (createTransaction stubEnv ledgerA ''uuid-9'' day1 day1 ''NOBODY'' ''CollectionEvent''
          (collection 30)) = Inl (NodeNotFoundOrInactive ''NOBODY'') \<and>
   snd (createTransaction stubEnv ledgerA ''uuid-9'' day1 day1 ''NOBODY'' ''CollectionEvent''
          (collection 30)) = ledgerA \<and>
   ''uuid-9'' \<notin> tid ` set (getAllTransactions ledgerA) \<and>
   getTransactionById
     (snd (createTransaction stubEnv ledgerA ''uuid-9'' day1 day1 ''NOBODY'' ''CollectionEvent''
             (collection 30))) ''uuid-9'' = None \<and>
   pendingTransactions ledgerA = [] \<and>
   mineBlock stubEnv ledgerA day1 ''MINER'' = Some (Inl NoPendingTransactions, ledgerA) \<and>
   fst (registerNode ledgerA day1 day1 ''NOBODY'' ''auditor'' ''PK'' []) =
     Inl (InvalidNodeType ''auditor'') \<and>
   snd (registerNode ledgerA day1 day1 ''NOBODY'' ''auditor'' ''PK'' []) = ledgerA"
proof -
  have n: "nodes ledgerA ''NOBODY'' = None"
    by (simp add: ledgerA_def newBlockchain_def registerNode_def allowedTypes_def)
  then have f: "fst (createTransaction stubEnv ledgerA ''uuid-9'' day1 day1 ''NOBODY''
          ''CollectionEvent'' (collection 30)) = Inl (NodeNotFoundOrInactive ''NOBODY'')"
    by (simp add: createTransaction_def)
  have u: "''uuid-9'' \<notin> tid ` set (getAllTransactions ledgerA)"
    by (simp add: getAllTransactions_def createGenesisBlock_def)
  have p: "pendingTransactions ledgerA = []" by simp
  have r: "fst (registerNode ledgerA day1 day1 ''NOBODY'' ''auditor'' ''PK'' []) =
             Inl (InvalidNodeType ''auditor'')"
    by (simp add: registerNode_def allowedTypes_def)
  from failed_operations_change_nothing
         [where e = stubEnv and bc = ledgerA and uid = "''uuid-9''" and now = day1
            and clock = day1 and nodeId = "''NOBODY''" and type = "''CollectionEvent''"
            and d = "collection 30" and err = "NodeNotFoundOrInactive ''NOBODY''"
            and now' = day1 and miner = "''MINER''" and err' = NoPendingTransactions
            and bc' = ledgerA and nodeType = "''auditor''" and pk = "''PK''" and md = "[]"
            and err'' = "InvalidNodeType ''auditor''"]
    f u p r
  show ?thesis by auto
qed

subsection \<open>Quality thresholds\<close>

lemma checkQuality_fails_iff:
  "checkQuality th qm \<noteq> QualityOk \<longleftrightarrow>
     jsGt (moisture qm) (moistureMax th) \<or>
     (truthyNum (withanolide qm) \<and> jsLt (withanolide qm) (withanolideMin th)) \<or>
     jsGt (pesticide qm) (pesticideMax th) \<or>
     jsGt (heavyMetals qm) (heavyMetalsMax th)"
  by (simp add: checkQuality_def)

lemma validateQuality_without_table:
  "objGet (qualityThresholds r) (propKey sp) = Undefined \<Longrightarrow>
   validateQuality r sp qm = QualityFail ''No quality rules defined for species''"
  by (simp add: validateQuality_def)

lemma absent_threshold_not_checked:
  "checkQuality (th\<lparr>moistureMax := None\<rparr>) (qm\<lparr>moisture := m\<rparr>) =
   checkQuality (th\<lparr>moistureMax := None\<rparr>) (qm\<lparr>moisture := None\<rparr>)"
  by (simp add: checkQuality_def jsGt_def split: option.splits)

text \<open>
  C7 at the failing input. A withanolide content of \<open>0\<close> is below the minimum
  of 0.3 for ashwagandha, as 0.1 is; 0.1 fails the rule and 0 passes it, and the
  farmer's event that reports it is admitted to the pool.
\<close>

theorem zero_withanolide_passes_quality:
  "validateQuality defaultRules (Some ''ashwagandha'') (withanolideOnly (1 / 10)) =
     QualityFail ''Withanolide content below minimum required'' \<and>
   validateQuality defaultRules (Some ''ashwagandha'') (withanolideOnly 0) = QualityOk \<and>
   map (qualityMetrics \<circ> tdata)
     (pendingTransactions
        (snd (createTransaction stubEnv ledgerA ''uuid-7'' day1 day1 ''FARMER001''
                ''CollectionEvent''
                ((collection 10)\<lparr>qualityMetrics := Some (withanolideOnly 0)\<rparr>)))) =
     [Some (withanolideOnly 0)]"
proof -
  have q: "validateQuality defaultRules (Some ''ashwagandha'') (withanolideOnly (1 / 10)) =
             QualityFail ''Withanolide content below minimum required''"
    "validateQuality defaultRules (Some ''ashwagandha'') (withanolideOnly 0) = QualityOk"
    by (simp_all add: validateQuality_def defaultRules_def objGet_def propKey_def
          checkQuality_def withanolideOnly_def jsGt_def jsLt_def truthyNum_def)
  have g: "validateGeoFencing defaultRules (Some ''ashwagandha'')
             (gps (collection 10)) = Inr True"
    "validateSeason defaultRules stubEnv (Some ''ashwagandha'') day1 = Inr True"
    using geo_collection [of 10] season_day1 [of 10] by (simp_all add: collection_def)
  have d: "validateDailyLimit defaultRules stubEnv (Some ''FARMER001'') (Some ''ashwagandha'')
             (Some 10) (getAllTransactions ledgerA) day1"
    by (simp add: validateDailyLimit_def defaultRules_def objGet_def propKey_def
          getAllTransactions_def totalToday_def double_eval)
  have "executeContract stubEnv ledgerA ''CollectionEvent''
          (signedTransaction stubEnv farmerNode ''uuid-7'' day1 ''FARMER001'' ''CollectionEvent''
             ((collection 10)\<lparr>qualityMetrics := Some (withanolideOnly 0)\<rparr>)) day1 =
        Inr (collectionPassed stubEnv
          (signedTransaction stubEnv farmerNode ''uuid-7'' day1 ''FARMER001'' ''CollectionEvent''
             ((collection 10)\<lparr>qualityMetrics := Some (withanolideOnly 0)\<rparr>)) ''PASSED'')"
    using q(2) g d
    by (simp add: executeContract_def executeCollectionEvent_def Let_def collection_def)
  moreover have "active farmerNode"
    "includesPermission (permissions farmerNode) (getRequiredPermission ''CollectionEvent'')"
    by (simp_all add: farmerNode_def includes_collection)
  ultimately have "createTransaction stubEnv ledgerA ''uuid-7'' day1 day1 ''FARMER001''
                ''CollectionEvent''
                ((collection 10)\<lparr>qualityMetrics := Some (withanolideOnly 0)\<rparr>) =
     (Inr ((signedTransaction stubEnv farmerNode ''uuid-7'' day1 ''FARMER001'' ''CollectionEvent''
             ((collection 10)\<lparr>qualityMetrics := Some (withanolideOnly 0)\<rparr>))
            \<lparr>contractValidation := Some (collectionPassed stubEnv
          (signedTransaction stubEnv farmerNode ''uuid-7'' day1 ''FARMER001'' ''CollectionEvent''
             ((collection 10)\<lparr>qualityMetrics := Some (withanolideOnly 0)\<rparr>)) ''PASSED'')\<rparr>),
      ledgerA\<lparr>pendingTransactions := pendingTransactions ledgerA @
         [(signedTransaction stubEnv farmerNode ''uuid-7'' day1 ''FARMER001'' ''CollectionEvent''
             ((collection 10)\<lparr>qualityMetrics := Some (withanolideOnly 0)\<rparr>))
            \<lparr>contractValidation := Some (collectionPassed stubEnv
          (signedTransaction stubEnv farmerNode ''uuid-7'' day1 ''FARMER001'' ''CollectionEvent''
             ((collection 10)\<lparr>qualityMetrics := Some (withanolideOnly 0)\<rparr>)) ''PASSED'')\<rparr>]\<rparr>)"
    by (intro createTransaction_passes) simp_all
  then show ?thesis using q by simp
qed

subsection \<open>Kinds without rules\<close>

text \<open>
  C8. For a kind other than \<^verbatim>\<open>CollectionEvent\<close>, \<^verbatim>\<open>ProcessingStep\<close> and
  \<^verbatim>\<open>QualityTest\<close> the contract passes with \<^verbatim>\<open>SYSTEM_APPROVED\<close> whatever the
  payload and the history, so a submission by an active node that holds the
  capability required for the kind succeeds and appends the event to the pool.
\<close>

theorem unlisted_kinds_admitted:
  assumes "type \<noteq> ''CollectionEvent''" and "type \<noteq> ''ProcessingStep''"
    and "type \<noteq> ''QualityTest''"
    and "nodes bc nodeId = Some nd" and "active nd"
    and "includesPermission (permissions nd) (getRequiredPermission type)"
  shows "executeContract e bc type tx clock =
           Inr \<lparr>valid = True, contractHash = ''SYSTEM_APPROVED'', validationRules = []\<rparr> \<and>
         createTransaction e bc uid now clock nodeId type d =
           (Inr ((signedTransaction e nd uid now nodeId type d)
                   \<lparr>contractValidation :=
                      Some \<lparr>valid = True, contractHash = ''SYSTEM_APPROVED'',
                            validationRules = []\<rparr>\<rparr>),
            bc\<lparr>pendingTransactions := pendingTransactions bc @
                  [(signedTransaction e nd uid now nodeId type d)
                     \<lparr>contractValidation :=
                        Some \<lparr>valid = True, contractHash = ''SYSTEM_APPROVED'',
                              validationRules = []\<rparr>\<rparr>]\<rparr>)"
proof -
  have c: "executeContract e bc type t clock =
           Inr \<lparr>valid = True, contractHash = ''SYSTEM_APPROVED'', validationRules = []\<rparr>" for t
    using assms(1-3) by (simp add: executeContract_def)
  from createTransaction_passes [OF assms(4-6) c] c show ?thesis by simp
qed

lemma ledgerM_facts [simp]:
  "nodes ledgerM ''MFR001'' = Some manufacturerNode"
  "pendingTransactions ledgerM = []"
  by (simp_all add: ledgerM_def registerNode_def allowedTypes_def manufacturerNode_def
        getNodePermissions_def objGet_def)

theorem unlisted_kinds_admitted_witness:
  "''ManufacturingRecord'' \<noteq> ''CollectionEvent'' \<and>
   ''ManufacturingRecord'' \<noteq> ''ProcessingStep'' \<and>
   ''ManufacturingRecord'' \<noteq> ''QualityTest'' \<and>
   nodes ledgerM ''MFR001'' = Some manufacturerNode \<and> active manufacturerNode \<and>
   includesPermission (permissions manufacturerNode)
     (getRequiredPermission ''ManufacturingRecord'') \<and>
   fst (createTransaction stubEnv ledgerM ''uuid-8'' day1 day1 ''MFR001''
          ''ManufacturingRecord'' (collection 1)) =
     Inr ((signedTransaction stubEnv manufacturerNode ''uuid-8'' day1 ''MFR001''
             ''ManufacturingRecord'' (collection 1))
            \<lparr>contractValidation :=
               Some \<lparr>valid = True, contractHash = ''SYSTEM_APPROVED'',
                     validationRules = []\<rparr>\<rparr>) \<and>
   length (pendingTransactions
     (snd (createTransaction stubEnv ledgerM ''uuid-8'' day1 day1 ''MFR001''
             ''ManufacturingRecord'' (collection 1)))) = 1"
proof -
  have h: "''ManufacturingRecord'' \<noteq> ''CollectionEvent''"
    "''ManufacturingRecord'' \<noteq> ''ProcessingStep''"
    "''ManufacturingRecord'' \<noteq> ''QualityTest''"
    "nodes ledgerM ''MFR001'' = Some manufacturerNode" "active manufacturerNode"
    "includesPermission (permissions manufacturerNode)
       (getRequiredPermission ''ManufacturingRecord'')"
    by (simp_all add: manufacturerNode_def includesPermission_def getRequiredPermission_def
          objGet_def)
  from unlisted_kinds_admitted
         [OF h, where e = stubEnv and uid = "''uuid-8''" and now = day1 and clock = day1
            and d = "collection 1"] h
  show ?thesis by simp
qed

subsection \<open>Kinds outside the table of required capabilities\<close>

lemma unknown_kind_falls_back:
  assumes "type \<notin> {''CollectionEvent'', ''ProcessingStep'', ''QualityTest'',
                     ''ManufacturingRecord'', ''ComplianceReport''}"
    and "type \<notin> set objectPrototypeKeys"
  shows "getRequiredPermission type = Permission ''read_own_data''"
  using assms by (simp add: getRequiredPermission_def objGet_def)

lemma inherited_kind_has_no_capability:
  assumes "type \<in> set objectPrototypeKeys"
  shows "getRequiredPermission type = InheritedMember"
    and "\<not> includesPermission ps (getRequiredPermission type)"
proof -
  from assms show "getRequiredPermission type = InheritedMember"
    by (auto simp: getRequiredPermission_def objGet_def objectPrototypeKeys_def)
  then show "\<not> includesPermission ps (getRequiredPermission type)"
    by (simp add: includesPermission_def)
qed

text \<open>
  C9 at the failing input. The kind \<^verbatim>\<open>constructor\<close> is none of the five kinds of
  the table, and the farmer holds \<^verbatim>\<open>read_own_data\<close>; the lookup returns the
  inherited member instead of the default, and the submission is refused for
  lack of permission. For the kind \<^verbatim>\<open>AuditNote\<close> the default applies.
\<close>

theorem inherited_kind_refused:
  "getRequiredPermission ''AuditNote'' = Permission ''read_own_data'' \<and>
   getRequiredPermission ''constructor'' = InheritedMember \<and>
   nodes ledgerA ''FARMER001'' = Some farmerNode \<and> active farmerNode \<and>
   ''read_own_data'' \<in> set (permissions farmerNode) \<and>
   createTransaction stubEnv ledgerA ''uuid-9'' day1 day1 ''FARMER001'' ''constructor''
     (collection 1) = (Inl (PermissionDenied ''FARMER001'' ''constructor''), ledgerA)"
  by (simp add: createTransaction_def getRequiredPermission_def objGet_def
        objectPrototypeKeys_def includesPermission_def farmerNode_def)

subsection \<open>Reading events back\<close>

lemma find_append_None: "find P xs = None \<Longrightarrow> find P (xs @ ys) = find P ys"
  by (induction xs) (auto split: if_splits)

text \<open>
  C10. An event that has been admitted to the pool under a fresh id is, until
  the pool is sealed, found neither by its id nor by any batch id, because both
  lookups read the sealed blocks only and give the same answer whatever the pool
  holds; once \<^verbatim>\<open>mineBlock\<close> has returned a block the event is found by its
  id, and by the batch lookup under its id and under its batch id.
\<close>

theorem pooled_events_not_retrievable:
  assumes "createTransaction e bc uid now clock nodeId type d = (Inr tx, bc1)"
    and "uid \<notin> tid ` set (getAllTransactions bc)"
    and "uid \<notin> tid ` set (pendingTransactions bc)"
  shows "tx \<in> set (pendingTransactions bc1) \<and>
         getTransactionById bc1 uid = None \<and>
         (\<forall>b. tx \<notin> set (getTransactionsByBatchId bc1 b)) \<and>
         (\<forall>now' miner blk bc2.
            mineBlock e bc1 now' miner = Some (Inr blk, bc2) \<longrightarrow>
              getTransactionById bc2 uid = Some tx \<and>
              tx \<in> set (getTransactionsByBatchId bc2 uid) \<and>
              (\<forall>b. batchId (tdata tx) = Some b \<longrightarrow>
                 tx \<in> set (getTransactionsByBatchId bc2 b))) \<and>
         (\<forall>p i. getTransactionById (bc1\<lparr>pendingTransactions := p\<rparr>) i =
                  getTransactionById bc1 i) \<and>
         (\<forall>p b. getTransactionsByBatchId (bc1\<lparr>pendingTransactions := p\<rparr>) b =
                  getTransactionsByBatchId bc1 b)"
proof -
  from createTransaction_admitted [OF assms(1)]
  have bc1: "bc1 = bc\<lparr>pendingTransactions := pendingTransactions bc @ [tx]\<rparr>"
    and uid: "tid tx = uid" by auto
  from bc1 have all1: "getAllTransactions bc1 = getAllTransactions bc"
    by (simp add: getAllTransactions_def)
  from assms(2) all1 have none: "getTransactionById bc1 uid = None"
    by (simp add: getTransactionById_fresh)
  from assms(2) uid all1 have nobatch: "tx \<notin> set (getTransactionsByBatchId bc1 b)" for b
    by (auto simp: getTransactionsByBatchId_def)
  have pool: "getTransactionById (bc1\<lparr>pendingTransactions := p\<rparr>) i =
                getTransactionById bc1 i"
    "getTransactionsByBatchId (bc1\<lparr>pendingTransactions := p\<rparr>) b =
       getTransactionsByBatchId bc1 b" for p i b
    by (simp_all add: getTransactionById_def getTransactionsByBatchId_def
          getAllTransactions_def)
  have sealed: "getTransactionById bc2 uid = Some tx \<and>
                tx \<in> set (getTransactionsByBatchId bc2 uid) \<and>
                (\<forall>b. batchId (tdata tx) = Some b \<longrightarrow>
                   tx \<in> set (getTransactionsByBatchId bc2 b))"
    if m: "mineBlock e bc1 now' miner = Some (Inr blk, bc2)" for now' miner blk bc2
  proof -
    from mineBlock_result [OF m] bc1 all1
    have all2: "getAllTransactions bc2 =
                  (getAllTransactions bc @ pendingTransactions bc) @ [tx]"
      by (simp add: getAllTransactions_def)
    from assms(2,3) have "find (\<lambda>t. tid t = uid)
                            (getAllTransactions bc @ pendingTransactions bc) = None"
      by (auto simp: find_None_iff)
    then have "find (\<lambda>t. tid t = uid)
                 ((getAllTransactions bc @ pendingTransactions bc) @ [tx]) =
               find (\<lambda>t. tid t = uid) [tx]"
      by (rule find_append_None)
    with uid have "getTransactionById bc2 uid = Some tx"
      unfolding getTransactionById_def all2 by simp
    moreover from uid have "tx \<in> set (getTransactionsByBatchId bc2 uid)"
      unfolding getTransactionsByBatchId_def all2 by simp
    moreover have "tx \<in> set (getTransactionsByBatchId bc2 b)"
      if "batchId (tdata tx) = Some b" for b
      using that unfolding getTransactionsByBatchId_def all2 by simp
    ultimately show ?thesis by simp
  qed
  from bc1 have "tx \<in> set (pendingTransactions bc1)" by simp
  with none nobatch sealed pool show ?thesis by blast
qed

theorem pooled_events_not_retrievable_witness:
  "createTransaction stubEnv ledgerA ''uuid-1'' day1 day1 ''FARMER001'' ''CollectionEvent''
     (collection 30) = (Inr (harvest ''uuid-1'' 30), ledgerB) \<and>
   ''uuid-1'' \<notin> tid ` set (getAllTransactions ledgerA) \<and>
   ''uuid-1'' \<notin> tid ` set (pendingTransactions ledgerA) \<and>
   harvest ''uuid-1'' 30 \<in> set (pendingTransactions ledgerB) \<and>
   getTransactionById ledgerB ''uuid-1'' = None \<and>
   harvest ''uuid-1'' 30 \<notin> set (getTransactionsByBatchId ledgerB ''uuid-1'') \<and>
   mineBlock stubEnv ledgerB day1 ''MINER'' =
     Some (Inr (firstNonceBlock stubEnv ledgerB day1 ''MINER''), ledgerC) \<and>
   getTransactionById ledgerC ''uuid-1'' = Some (harvest ''uuid-1'' 30) \<and>
   harvest ''uuid-1'' 30 \<in> set (getTransactionsByBatchId ledgerC ''uuid-1'')"
proof -
  have c: "createTransaction stubEnv ledgerA ''uuid-1'' day1 day1 ''FARMER001''
             ''CollectionEvent'' (collection 30) = (Inr (harvest ''uuid-1'' 30), ledgerB)"
    by (simp add: farmer_submits totalToday_def double_eval ledgerB_eq)
  have f: "''uuid-1'' \<notin> tid ` set (getAllTransactions ledgerA)"
    "''uuid-1'' \<notin> tid ` set (pendingTransactions ledgerA)"
    by (simp_all add: getAllTransactions_def createGenesisBlock_def)
  from pooled_events_not_retrievable [OF c f] c f ledgerB_sealed
  show ?thesis by (simp del: ledgerB_facts ledgerC_facts) 
qed

end
